theory Spec2Isabelle
  imports Main
begin

section \<open>Oblivius package updater: a shallow embedding of oblivius-updater.py\<close>

text \<open>
  Python strings are modelled as \<open>string\<close>, lists of 8-bit characters: a character
  stands for the Unicode code point of the same number, so the strings of the model are the
  Python strings whose code points are below 256. On these, \<open>str.split\<close>,
  \<open>str.strip\<close> and \<open>str.lower\<close> are modelled in full. Python's unbounded
  integers are \<open>int\<close>, lists are HOL lists.
\<close>

subsection \<open>String operations of the Python runtime\<close>

definition nl :: char where
  "nl = CHR 0x0A"

definition tab :: char where
  "tab = CHR 0x09"

text \<open>
  The code points below 256 for which \<open>str.isspace\<close> holds, the whitespace of
  \<open>split()\<close> and \<open>strip()\<close>: the ASCII whitespace and separators, NEXT LINE
  (U+0085) and NO-BREAK SPACE (U+00A0).
\<close>

definition is_space :: "char \<Rightarrow> bool" where
  "is_space c = (c \<in> set [CHR 0x09, CHR 0x0A, CHR 0x0B, CHR 0x0C, CHR 0x0D,
                            CHR 0x1C, CHR 0x1D, CHR 0x1E, CHR 0x1F, CHR 0x20,
                            CHR 0x85, CHR 0xA0])"

text \<open>\<open>s.strip()\<close>: leading and trailing whitespace removed.\<close>

definition strip :: "string \<Rightarrow> string" where
  "strip s = rev (dropWhile is_space (rev (dropWhile is_space s)))"

text \<open>
  \<open>s.split(sep)\<close> for a one-character separator: the pieces between the separators,
  empty pieces kept, so the result is never empty. The first argument of \<open>split_acc\<close>
  is the piece read so far.
\<close>

fun split_acc :: "char \<Rightarrow> string \<Rightarrow> string \<Rightarrow> string list" where
  "split_acc sep cur [] = [cur]"
| "split_acc sep cur (c # cs) =
     (if c = sep then cur # split_acc sep [] cs else split_acc sep (cur @ [c]) cs)"

definition split_on :: "char \<Rightarrow> string \<Rightarrow> string list" where
  "split_on sep s = split_acc sep [] s"

text \<open>
  \<open>s.split()\<close> without a separator: the maximal runs of non-whitespace characters;
  no piece is empty.
\<close>

fun split_ws_acc :: "string \<Rightarrow> string \<Rightarrow> string list" where
  "split_ws_acc cur [] = (if cur = [] then [] else [cur])"
| "split_ws_acc cur (c # cs) =
     (if is_space c
      then (if cur = [] then split_ws_acc [] cs else cur # split_ws_acc [] cs)
      else split_ws_acc (cur @ [c]) cs)"

definition split_ws :: "string \<Rightarrow> string list" where
  "split_ws s = split_ws_acc [] s"

text \<open>
  \<open>s.lower()\<close>. Below code point 256 the characters that have a lower-case form are the
  ASCII capitals and the Latin-1 capitals U+00C0 to U+00DE without the multiplication sign
  U+00D7; each maps to the code point 32 above it.
\<close>

definition latin1_upper :: string where
  "latin1_upper =
     [CHR 0xC0, CHR 0xC1, CHR 0xC2, CHR 0xC3, CHR 0xC4, CHR 0xC5, CHR 0xC6, CHR 0xC7,
      CHR 0xC8, CHR 0xC9, CHR 0xCA, CHR 0xCB, CHR 0xCC, CHR 0xCD, CHR 0xCE, CHR 0xCF,
      CHR 0xD0, CHR 0xD1, CHR 0xD2, CHR 0xD3, CHR 0xD4, CHR 0xD5, CHR 0xD6, CHR 0xD8,
      CHR 0xD9, CHR 0xDA, CHR 0xDB, CHR 0xDC, CHR 0xDD, CHR 0xDE]"

definition latin1_lower :: string where
  "latin1_lower =
     [CHR 0xE0, CHR 0xE1, CHR 0xE2, CHR 0xE3, CHR 0xE4, CHR 0xE5, CHR 0xE6, CHR 0xE7,
      CHR 0xE8, CHR 0xE9, CHR 0xEA, CHR 0xEB, CHR 0xEC, CHR 0xED, CHR 0xEE, CHR 0xEF,
      CHR 0xF0, CHR 0xF1, CHR 0xF2, CHR 0xF3, CHR 0xF4, CHR 0xF5, CHR 0xF6, CHR 0xF8,
      CHR 0xF9, CHR 0xFA, CHR 0xFB, CHR 0xFC, CHR 0xFD, CHR 0xFE]"

definition lower_char :: "char \<Rightarrow> char" where
  "lower_char c =
     (case map_of (zip (''ABCDEFGHIJKLMNOPQRSTUVWXYZ'' @ latin1_upper)
                       (''abcdefghijklmnopqrstuvwxyz'' @ latin1_lower)) c of
        Some d \<Rightarrow> d
      | None \<Rightarrow> c)"

definition lower :: "string \<Rightarrow> string" where
  "lower s = map lower_char s"

text \<open>
  \<open>xs[i]\<close>: a negative index counts from the end, an index out of range raises
  \<open>IndexError\<close> (the value \<open>None\<close> here).
\<close>

definition py_index :: "'a list \<Rightarrow> int \<Rightarrow> nat option" where
  "py_index xs i =
     (if 0 \<le> i \<and> i < int (length xs) then Some (nat i)
      else if i < 0 \<and> - int (length xs) \<le> i then Some (nat (int (length xs) + i))
      else None)"

subsection \<open>Data model\<close>

datatype PackageSource = OFFICIAL | AUR | FLATPAK

record Package =
  name :: string
  current_version :: string
  new_version :: string
  source :: PackageSource
  selected :: bool

text \<open>The constructor call \<open>Package(name, current, new, source)\<close>; \<open>selected\<close> defaults to true.\<close>

definition Package_init :: "string \<Rightarrow> string \<Rightarrow> string \<Rightarrow> PackageSource \<Rightarrow> Package" where
  "Package_init n c v s =
     \<lparr>name = n, current_version = c, new_version = v, source = s, selected = True\<rparr>"

record UpdateResult =
  r_name :: string
  r_source :: PackageSource
  success :: bool
  error :: string

text \<open>
  What \<open>subprocess.run\<close> gives back: a completed process with its exit status and captured
  texts (\<open>stderr\<close> may be \<open>None\<close>), or one of the two exceptions the adapters catch.
\<close>

record CompletedProcess =
  returncode :: int
  stdout :: string
  stderr :: "string option"

datatype run_outcome = Completed CompletedProcess | TimeoutExpired | FileNotFoundError

subsection \<open>Source adapters\<close>

text \<open>The body of the loop over the lines of \<open>checkupdates\<close>: what one line appends.\<close>

definition official_line :: "string \<Rightarrow> Package list" where
  "official_line line =
     (let parts = split_ws line
      in if length parts \<ge> 4
         then [Package_init (parts ! 0) (parts ! 1) (parts ! 3) OFFICIAL]
         else [])"

definition get_official_updates :: "run_outcome \<Rightarrow> Package list" where
  "get_official_updates out =
     (case out of
        Completed result \<Rightarrow>
          if returncode result = 0 \<and> strip (stdout result) \<noteq> []
          then concat (map official_line (split_on nl (strip (stdout result))))
          else []
      | TimeoutExpired \<Rightarrow> []
      | FileNotFoundError \<Rightarrow> [])"

text \<open>The body of the loop over the lines of \<open>helper -Qum\<close>.\<close>

definition aur_line :: "string \<Rightarrow> Package list" where
  "aur_line line =
     (let parts = split_ws line
      in if length parts \<ge> 4
         then [Package_init (parts ! 0) (parts ! 1) (parts ! 3) AUR]
         else if length parts \<ge> 2
         then [Package_init (parts ! 0) (if length parts > 1 then parts ! 1 else ''?'') ''?'' AUR]
         else [])"

definition get_aur_updates :: "run_outcome \<Rightarrow> Package list" where
  "get_aur_updates out =
     (case out of
        Completed result \<Rightarrow>
          if returncode result = 0 \<and> strip (stdout result) \<noteq> []
          then concat (map aur_line (split_on nl (strip (stdout result))))
          else []
      | TimeoutExpired \<Rightarrow> []
      | FileNotFoundError \<Rightarrow> [])"

text \<open>
  The body of the loop over the lines of \<open>flatpak remote-ls\<close>. Splitting at the tab
  character never gives an empty list, so \<open>parts[0]\<close> exists.
\<close>

definition flatpak_line :: "string \<Rightarrow> Package list" where
  "flatpak_line line =
     (let parts = split_on tab line
      in if parts \<noteq> []
         then (let nm = strip (parts ! 0);
                   new_version = (if length parts > 1 then strip (parts ! 1) else ''?'')
               in if nm \<noteq> [] then [Package_init nm ''installed'' new_version FLATPAK] else [])
         else [])"

text \<open>The first argument is whether \<open>shutil.which("flatpak")\<close> finds the tool.\<close>

definition get_flatpak_updates :: "bool \<Rightarrow> run_outcome \<Rightarrow> Package list" where
  "get_flatpak_updates which_flatpak out =
     (if \<not> which_flatpak then []
      else case out of
        Completed result \<Rightarrow>
          if returncode result = 0 \<and> strip (stdout result) \<noteq> []
          then concat (map flatpak_line (split_on nl (strip (stdout result))))
          else []
      | TimeoutExpired \<Rightarrow> []
      | FileNotFoundError \<Rightarrow> [])"

text \<open>
  Truthiness of \<open>aur_helper\<close>, an \<open>Optional[str]\<close>: neither \<open>None\<close> nor the empty string.
\<close>

definition truthy :: "string option \<Rightarrow> bool" where
  "truthy h = (case h of None \<Rightarrow> False | Some s \<Rightarrow> s \<noteq> [])"

text \<open>
  The gathering part of \<open>main\<close>: the catalog handed to the TUI. The AUR adapter runs only
  when a helper was detected.
\<close>

definition gather_packages ::
  "string option \<Rightarrow> run_outcome \<Rightarrow> run_outcome \<Rightarrow> bool \<Rightarrow> run_outcome \<Rightarrow> Package list" where
  "gather_packages aur_helper off_out aur_out which_flatpak flat_out =
     get_official_updates off_out
     @ (if truthy aur_helper then get_aur_updates aur_out else [])
     @ get_flatpak_updates which_flatpak flat_out"

subsection \<open>Update executor\<close>

text \<open>
  The update commands are external: \<open>sp k argv\<close> is the completed process of the
  \<open>k\<close>-th per-item update command of a run (counted from 0), started with the
  arguments \<open>argv\<close>. The results of the database sync and of the waybar signal are
  discarded by the code and are not modelled.
\<close>

type_synonym subprocess = "nat \<Rightarrow> string list \<Rightarrow> CompletedProcess"

definition error_lines :: "string option \<Rightarrow> string list" where
  "error_lines err =
     map strip (filter (\<lambda>l. strip l \<noteq> [])
       (split_on nl (case err of None \<Rightarrow> [] | Some s \<Rightarrow> s)))"

definition last_error :: "string option \<Rightarrow> string" where
  "last_error err =
     (if error_lines err \<noteq> [] then last (error_lines err) else ''Unknown error'')"

text \<open>
  The result appended for one package, from the completed process of its update command;
  the same code in the helper loop and in the flatpak loop.
\<close>

definition record_result :: "Package \<Rightarrow> CompletedProcess \<Rightarrow> UpdateResult" where
  "record_result pkg result =
     (if returncode result \<noteq> 0
      then \<lparr>r_name = name pkg, r_source = source pkg, success = False,
            error = last_error (stderr result)\<rparr>
      else \<lparr>r_name = name pkg, r_source = source pkg, success = True, error = []\<rparr>)"

definition pacman_argv :: "string \<Rightarrow> Package \<Rightarrow> string list" where
  "pacman_argv helper pkg = [helper, ''-S'', ''--needed'', ''--noconfirm'', name pkg]"

definition flatpak_argv :: "Package \<Rightarrow> string list" where
  "flatpak_argv pkg = [''flatpak'', ''update'', ''-y'', name pkg]"

text \<open>One \<open>for\<close> loop over a batch; \<open>k\<close> counts the commands started before.\<close>

fun update_loop ::
  "subprocess \<Rightarrow> (Package \<Rightarrow> string list) \<Rightarrow> nat \<Rightarrow> Package list \<Rightarrow> UpdateResult list" where
  "update_loop sp argv k [] = []"
| "update_loop sp argv k (pkg # pkgs) =
     record_result pkg (sp k (argv pkg)) # update_loop sp argv (Suc k) pkgs"

definition selected_pkgs :: "Package list \<Rightarrow> Package list" where
  "selected_pkgs pkgs = filter selected pkgs"

definition official_pkgs :: "Package list \<Rightarrow> Package list" where
  "official_pkgs pkgs = filter (\<lambda>p. source p = OFFICIAL) (selected_pkgs pkgs)"

definition aur_pkgs :: "Package list \<Rightarrow> Package list" where
  "aur_pkgs pkgs = filter (\<lambda>p. source p = AUR) (selected_pkgs pkgs)"

definition flatpak_pkgs :: "Package list \<Rightarrow> Package list" where
  "flatpak_pkgs pkgs = filter (\<lambda>p. source p = FLATPAK) (selected_pkgs pkgs)"

definition pacman_pkgs :: "Package list \<Rightarrow> Package list" where
  "pacman_pkgs pkgs = official_pkgs pkgs @ aur_pkgs pkgs"

text \<open>The results of the helper batch: nothing when no helper was detected.\<close>

definition pacman_results :: "subprocess \<Rightarrow> string option \<Rightarrow> Package list \<Rightarrow> UpdateResult list" where
  "pacman_results sp helper pkgs =
     (if pacman_pkgs pkgs \<noteq> [] \<and> truthy helper
      then update_loop sp (pacman_argv (case helper of Some h \<Rightarrow> h | None \<Rightarrow> [])) 0
             (pacman_pkgs pkgs)
      else [])"

text \<open>The results of both batches, in the order in which \<open>run_updates\<close> appends them.\<close>

definition execute :: "subprocess \<Rightarrow> string option \<Rightarrow> Package list \<Rightarrow> UpdateResult list" where
  "execute sp helper pkgs =
     (let rs = pacman_results sp helper pkgs
      in rs @ (if flatpak_pkgs pkgs \<noteq> []
               then update_loop sp flatpak_argv (length rs) (flatpak_pkgs pkgs)
               else []))"

subsection \<open>Interaction state machine\<close>

datatype Mode = Select | Confirm | Updating | Results

text \<open>
  The fields of \<open>UpdaterTUI\<close>. Of the terminal only its height is read outside the
  drawing code; it is taken as fixed for the session.
\<close>

record UpdaterTUI =
  term_height :: int
  packages :: "Package list"
  aur_helper :: "string option"
  cursor :: int
  scroll_offset :: int
  mode :: Mode
  in_button_area :: bool
  button_cursor :: int
  results :: "UpdateResult list"

definition UpdaterTUI_init :: "int \<Rightarrow> Package list \<Rightarrow> string option \<Rightarrow> UpdaterTUI" where
  "UpdaterTUI_init h pkgs helper =
     \<lparr>term_height = h, packages = pkgs, aur_helper = helper, cursor = 0, scroll_offset = 0,
      mode = Select, in_button_area = False, button_cursor = 0, results = []\<rparr>"

definition SELECT_BUTTONS :: "string list" where
  "SELECT_BUTTONS = [''Select All'', ''Deselect All'', ''Update'', ''Exit'']"

definition CONFIRM_BUTTONS :: "string list" where
  "CONFIRM_BUTTONS = [''Yes, Update'', ''Go Back'']"

definition RESULTS_BUTTONS :: "string list" where
  "RESULTS_BUTTONS = [''Exit'']"

definition visible_height :: "UpdaterTUI \<Rightarrow> int" where
  "visible_height st = term_height st - 10"

definition current_buttons :: "UpdaterTUI \<Rightarrow> string list" where
  "current_buttons st =
     (case mode st of
        Select \<Rightarrow> SELECT_BUTTONS
      | Confirm \<Rightarrow> CONFIRM_BUTTONS
      | Results \<Rightarrow> RESULTS_BUTTONS
      | Updating \<Rightarrow> [])"

definition move_cursor :: "UpdaterTUI \<Rightarrow> int \<Rightarrow> UpdaterTUI" where
  "move_cursor st delta =
     (if in_button_area st
      then st\<lparr>button_cursor :=
                max 0 (min (int (length (current_buttons st)) - 1) (button_cursor st + delta))\<rparr>
      else
        (let c = max 0 (min (int (length (packages st)) - 1) (cursor st + delta));
             st1 = st\<lparr>cursor := c\<rparr>
         in if c < scroll_offset st1 then st1\<lparr>scroll_offset := c\<rparr>
            else if c \<ge> scroll_offset st1 + visible_height st1
            then st1\<lparr>scroll_offset := c - visible_height st1 + 1\<rparr>
            else st1))"

definition move_to_buttons :: "UpdaterTUI \<Rightarrow> UpdaterTUI" where
  "move_to_buttons st = st\<lparr>in_button_area := True, button_cursor := 0\<rparr>"

definition move_to_list :: "UpdaterTUI \<Rightarrow> UpdaterTUI" where
  "move_to_list st = st\<lparr>in_button_area := False\<rparr>"

text \<open>\<open>None\<close> is an \<open>IndexError\<close> from \<open>self.packages[self.cursor]\<close>.\<close>

definition toggle_current :: "UpdaterTUI \<Rightarrow> UpdaterTUI option" where
  "toggle_current st =
     (if \<not> in_button_area st \<and> packages st \<noteq> []
      then (case py_index (packages st) (cursor st) of
              None \<Rightarrow> None
            | Some i \<Rightarrow>
                Some (st\<lparr>packages :=
                  (packages st)[i := (packages st ! i)\<lparr>selected := \<not> selected (packages st ! i)\<rparr>]\<rparr>))
      else Some st)"

definition select_all :: "UpdaterTUI \<Rightarrow> UpdaterTUI" where
  "select_all st = st\<lparr>packages := map (\<lambda>pkg. pkg\<lparr>selected := True\<rparr>) (packages st)\<rparr>"

definition deselect_all :: "UpdaterTUI \<Rightarrow> UpdaterTUI" where
  "deselect_all st = st\<lparr>packages := map (\<lambda>pkg. pkg\<lparr>selected := False\<rparr>) (packages st)\<rparr>"

text \<open>
  \<open>activate_button\<close> returns the new state with the action string the method returns;
  \<open>None\<close> is an \<open>IndexError\<close> from indexing the button list.
\<close>

definition activate_button :: "UpdaterTUI \<Rightarrow> (UpdaterTUI \<times> string option) option" where
  "activate_button st =
     (case mode st of
        Select \<Rightarrow>
          (case py_index SELECT_BUTTONS (button_cursor st) of
             None \<Rightarrow> None
           | Some i \<Rightarrow>
               (let btn = SELECT_BUTTONS ! i
                in if btn = ''Select All'' then Some (move_to_list (select_all st), None)
                   else if btn = ''Deselect All'' then Some (move_to_list (deselect_all st), None)
                   else if btn = ''Update''
                   then (if list_ex selected (packages st)
                         then Some (st\<lparr>mode := Confirm, in_button_area := True,
                                       button_cursor := 0\<rparr>, None)
                         else Some (st, None))
                   else if btn = ''Exit'' then Some (st, Some ''exit'')
                   else Some (st, None)))
      | Confirm \<Rightarrow>
          (case py_index CONFIRM_BUTTONS (button_cursor st) of
             None \<Rightarrow> None
           | Some i \<Rightarrow>
               (let btn = CONFIRM_BUTTONS ! i
                in if btn = ''Yes, Update'' then Some (st, Some ''run_updates'')
                   else if btn = ''Go Back''
                   then Some (st\<lparr>mode := Select, in_button_area := False\<rparr>, None)
                   else Some (st, None)))
      | Results \<Rightarrow> Some (st, Some ''exit'')
      | Updating \<Rightarrow> Some (st, None))"

definition run_updates :: "subprocess \<Rightarrow> UpdaterTUI \<Rightarrow> UpdaterTUI" where
  "run_updates sp st =
     st\<lparr>results := execute sp (aur_helper st) (packages st),
        mode := Results, in_button_area := True, button_cursor := 0\<rparr>"

subsection \<open>The input loop\<close>

text \<open>
  A keystroke as the loop reads it: \<open>key.name\<close> (\<open>None\<close> for a printable character)
  and the text of the key.
\<close>

record Keystroke =
  key_name :: "string option"
  key_str :: string

definition is_up :: "Keystroke \<Rightarrow> bool" where
  "is_up key = (key_name key = Some ''KEY_UP'' \<or> lower (key_str key) \<in> set [''w'', ''k''])"

definition is_down :: "Keystroke \<Rightarrow> bool" where
  "is_down key = (key_name key = Some ''KEY_DOWN'' \<or> lower (key_str key) \<in> set [''s'', ''j''])"

definition is_named :: "string \<Rightarrow> Keystroke \<Rightarrow> bool" where
  "is_named n key = (key_name key = Some n)"

definition is_space_key :: "Keystroke \<Rightarrow> bool" where
  "is_space_key key = (key_str key = '' '')"

definition is_quit :: "Keystroke \<Rightarrow> bool" where
  "is_quit key = (lower (key_str key) = ''q'')"

text \<open>
  One pass through the body of the \<open>while True\<close> loop of \<open>run\<close>: the session goes on,
  ends (\<open>break\<close>), or dies of an uncaught \<open>IndexError\<close>.
\<close>

datatype outcome = Running UpdaterTUI | Exited UpdaterTUI | Crashed

definition do_activate :: "subprocess \<Rightarrow> UpdaterTUI \<Rightarrow> outcome" where
  "do_activate sp st =
     (case activate_button st of
        None \<Rightarrow> Crashed
      | Some (st', action) \<Rightarrow>
          if action = Some ''exit'' then Exited st'
          else if action = Some ''run_updates'' then Running (run_updates sp st')
          else Running st')"

definition do_toggle :: "UpdaterTUI \<Rightarrow> outcome" where
  "do_toggle st = (case toggle_current st of None \<Rightarrow> Crashed | Some st' \<Rightarrow> Running st')"

text \<open>
  The two assignments \<open>self.cursor = len(self.packages) - 1\<close> and
  \<open>self.scroll_offset = max(0, len(self.packages) - self.visible_height)\<close>, which the
  loop performs for the End key and for Up from the button row.
\<close>

definition jump_to_end :: "UpdaterTUI \<Rightarrow> UpdaterTUI" where
  "jump_to_end st =
     st\<lparr>cursor := int (length (packages st)) - 1,
        scroll_offset := max 0 (int (length (packages st)) - visible_height st)\<rparr>"

definition step :: "subprocess \<Rightarrow> UpdaterTUI \<Rightarrow> Keystroke \<Rightarrow> outcome" where
  "step sp st key =
     (if mode st \<in> {Select, Confirm, Results} then
        if is_up key then
          (if in_button_area st \<and> mode st = Select
           then Running (jump_to_end (move_to_list st))
           else Running (move_cursor st (- 1)))
        else if is_down key then
          (if \<not> in_button_area st \<and> mode st = Select
           then (if cursor st \<ge> int (length (packages st)) - 1
                 then Running (move_to_buttons st)
                 else Running (move_cursor st 1))
           else Running st)
        else if is_named ''KEY_LEFT'' key then
          (if in_button_area st then Running (move_cursor st (- 1)) else Running st)
        else if is_named ''KEY_RIGHT'' key then
          (if in_button_area st then Running (move_cursor st 1) else Running st)
        else if is_named ''KEY_PGUP'' key then
          (if \<not> in_button_area st then Running (move_cursor st (- visible_height st))
           else Running st)
        else if is_named ''KEY_PGDOWN'' key then
          (if \<not> in_button_area st then Running (move_cursor st (visible_height st))
           else Running st)
        else if is_named ''KEY_HOME'' key then
          (if \<not> in_button_area st then Running (st\<lparr>cursor := 0, scroll_offset := 0\<rparr>)
           else Running st)
        else if is_named ''KEY_END'' key then
          (if \<not> in_button_area st then Running (jump_to_end st) else Running st)
        else if is_space_key key then
          (if mode st = Select
           then (if in_button_area st then do_activate sp st else do_toggle st)
           else Running st)
        else if is_named ''KEY_ENTER'' key then
          (if in_button_area st then do_activate sp st
           else if mode st = Select then do_toggle st
           else Running st)
        else if is_quit key then Exited st
        else Running st
      else Running st)"

text \<open>The loop over a finite sequence of keystrokes; it stops at the first that ends it.\<close>

fun run :: "subprocess \<Rightarrow> UpdaterTUI \<Rightarrow> Keystroke list \<Rightarrow> outcome" where
  "run sp st [] = Running st"
| "run sp st (key # keys) =
     (case step sp st key of
        Running st' \<Rightarrow> run sp st' keys
      | Exited st' \<Rightarrow> Exited st'
      | Crashed \<Rightarrow> Crashed)"

subsection \<open>Invariants of the session state\<close>

text \<open>
  The button cursor points into the button row of the current mode, the mode between two
  keystrokes is never \<open>Updating\<close>, and the confirm and results screens have button focus.
\<close>

definition buttons_ok :: "UpdaterTUI \<Rightarrow> bool" where
  "buttons_ok st =
     (mode st \<noteq> Updating \<and> 0 \<le> button_cursor st
      \<and> button_cursor st < int (length (current_buttons st))
      \<and> (mode st = Confirm \<or> mode st = Results \<longrightarrow> in_button_area st))"

text \<open>The list cursor points at an item of a non-empty catalog.\<close>

definition cursor_ok :: "UpdaterTUI \<Rightarrow> bool" where
  "cursor_ok st =
     (packages st \<noteq> [] \<longrightarrow> 0 \<le> cursor st \<and> cursor st \<le> int (length (packages st)) - 1)"

text \<open>The cursor lies inside the visible page.\<close>

definition window_ok :: "UpdaterTUI \<Rightarrow> bool" where
  "window_ok st =
     (scroll_offset st \<le> cursor st \<and> cursor st < scroll_offset st + visible_height st)"

text \<open>The confirm screen is shown only while something is selected.\<close>

definition confirm_ok :: "UpdaterTUI \<Rightarrow> bool" where
  "confirm_ok st = (mode st = Confirm \<longrightarrow> list_ex selected (packages st))"

subsection \<open>Keystrokes and environments used in the examples\<close>

definition KEY_UP :: Keystroke where
  "KEY_UP = \<lparr>key_name = Some ''KEY_UP'', key_str = [CHR 0x1B, CHR ''['', CHR ''A'']\<rparr>"

definition KEY_DOWN :: Keystroke where
  "KEY_DOWN = \<lparr>key_name = Some ''KEY_DOWN'', key_str = [CHR 0x1B, CHR ''['', CHR ''B'']\<rparr>"

definition KEY_RIGHT :: Keystroke where
  "KEY_RIGHT = \<lparr>key_name = Some ''KEY_RIGHT'', key_str = [CHR 0x1B, CHR ''['', CHR ''C'']\<rparr>"

definition KEY_LEFT :: Keystroke where
  "KEY_LEFT = \<lparr>key_name = Some ''KEY_LEFT'', key_str = [CHR 0x1B, CHR ''['', CHR ''D'']\<rparr>"

definition KEY_ENTER :: Keystroke where
  "KEY_ENTER = \<lparr>key_name = Some ''KEY_ENTER'', key_str = [CHR 0x0A]\<rparr>"

definition KEY_END :: Keystroke where
  "KEY_END = \<lparr>key_name = Some ''KEY_END'', key_str = [CHR 0x1B, CHR ''['', CHR ''F'']\<rparr>"

definition SPACE :: Keystroke where
  "SPACE = \<lparr>key_name = None, key_str = '' ''\<rparr>"

text \<open>An environment in which every update command succeeds.\<close>

definition all_succeed :: subprocess where
  "all_succeed k argv = \<lparr>returncode = 0, stdout = [], stderr = None\<rparr>"

text \<open>An environment in which exactly the \<open>n\<close>-th update command fails, with the given error text.\<close>

definition fail_at :: "nat \<Rightarrow> string \<Rightarrow> subprocess" where
  "fail_at n msg k argv =
     (if k = n then \<lparr>returncode = 1, stdout = [], stderr = Some msg\<rparr>
      else \<lparr>returncode = 0, stdout = [], stderr = None\<rparr>)"

definition pkgA :: Package where
  "pkgA = \<lparr>name = ''pkgA'', current_version = ''1.0'', new_version = ''1.1'',
           source = OFFICIAL, selected = True\<rparr>"

definition pkgB :: Package where
  "pkgB = \<lparr>name = ''pkgB'', current_version = ''2.0'', new_version = ''2.1'',
           source = AUR, selected = False\<rparr>"

definition pkgF :: Package where
  "pkgF = \<lparr>name = ''org.app.F'', current_version = ''installed'', new_version = ''3.1'',
           source = FLATPAK, selected = True\<rparr>"

definition two_items :: UpdaterTUI where
  "two_items = (UpdaterTUI_init 24 [pkgA, pkgB] (Some ''paru''))\<lparr>cursor := 1\<rparr>"

text \<open>States used in the examples.\<close>

definition tiny_terminal :: UpdaterTUI where
  "tiny_terminal = UpdaterTUI_init 10 [pkgA, pkgB] None"

definition paged_list :: UpdaterTUI where
  "paged_list = UpdaterTUI_init 15 (replicate 12 pkgA) None"

definition confirming :: UpdaterTUI where
  "confirming =
     (UpdaterTUI_init 24 [pkgA, pkgB] None)\<lparr>cursor := 1, mode := Confirm, in_button_area := True\<rparr>"

definition nothing_selected :: UpdaterTUI where
  "nothing_selected =
     (UpdaterTUI_init 24 [pkgB] None)\<lparr>in_button_area := True, button_cursor := 2\<rparr>"

definition KEY_j :: Keystroke where
  "KEY_j = \<lparr>key_name = None, key_str = ''j''\<rparr>"

subsection \<open>The batch of an update run\<close>

text \<open>
  The packages for which \<open>run_updates\<close> starts an update command, in the order of the
  commands: the selected official and AUR packages when a helper is available, then the
  selected flatpaks.
\<close>

definition executed_batch :: "string option \<Rightarrow> Package list \<Rightarrow> Package list" where
  "executed_batch helper pkgs =
     (if truthy helper then official_pkgs pkgs @ aur_pkgs pkgs else []) @ flatpak_pkgs pkgs"

text \<open>
  The arguments of the update command of one package of the batch.
\<close>

definition command_of :: "string option \<Rightarrow> Package \<Rightarrow> string list" where
  "command_of helper pkg =
     (if source pkg = FLATPAK then flatpak_argv pkg
      else pacman_argv (case helper of Some h \<Rightarrow> h | None \<Rightarrow> []) pkg)"

definition three_selected :: "string option \<Rightarrow> UpdaterTUI" where
  "three_selected helper =
     (UpdaterTUI_init 24 [pkgA, pkgB\<lparr>selected := True\<rparr>, pkgF] helper)
       \<lparr>mode := Confirm, in_button_area := True\<rparr>"

text \<open>
  A listing command that exits with status 0 and the given standard output.
\<close>

definition completed_ok :: "string \<Rightarrow> run_outcome" where
  "completed_ok out = Completed \<lparr>returncode = 0, stdout = out, stderr = None\<rparr>"

text \<open>A catalog with unselected items and two selected flatpaks, and no helper.\<close>

definition pkgG :: Package where
  "pkgG = \<lparr>name = ''org.app.G'', current_version = ''installed'', new_version = ''4.0'',
           source = FLATPAK, selected = False\<rparr>"

definition pkgH :: Package where
  "pkgH = \<lparr>name = ''org.app.H'', current_version = ''installed'', new_version = ''5.2'',
           source = FLATPAK, selected = True\<rparr>"

definition mixed_selection :: UpdaterTUI where
  "mixed_selection =
     (UpdaterTUI_init 24 [pkgA, pkgB, pkgF, pkgG, pkgH] None)
       \<lparr>mode := Confirm, in_button_area := True\<rparr>"

section \<open>Properties\<close>

subsection \<open>What a button activation and a toggle do in a well-formed state\<close>

lemma activate_button_Select:
  assumes "mode st = Select" "0 \<le> button_cursor st" "button_cursor st < 4"
  shows "activate_button st =
     (if button_cursor st = 0 then Some (move_to_list (select_all st), None)
      else if button_cursor st = 1 then Some (move_to_list (deselect_all st), None)
      else if button_cursor st = 2
      then (if list_ex selected (packages st)
            then Some (st\<lparr>mode := Confirm, in_button_area := True, button_cursor := 0\<rparr>, None)
            else Some (st, None))
      else Some (st, Some ''exit''))"
proof -
  from assms have "button_cursor st = 0 \<or> button_cursor st = 1 \<or> button_cursor st = 2
    \<or> button_cursor st = 3" by arith
  then show ?thesis using assms(1)
    by (auto simp: activate_button_def py_index_def SELECT_BUTTONS_def)
qed

lemma activate_button_Confirm:
  assumes "mode st = Confirm" "0 \<le> button_cursor st" "button_cursor st < 2"
  shows "activate_button st =
     (if button_cursor st = 0 then Some (st, Some ''run_updates'')
      else Some (st\<lparr>mode := Select, in_button_area := False\<rparr>, None))"
proof -
  from assms have "button_cursor st = 0 \<or> button_cursor st = 1" by arith
  then show ?thesis using assms(1)
    by (auto simp: activate_button_def py_index_def CONFIRM_BUTTONS_def)
qed

lemma do_activate_cases:
  assumes "buttons_ok st"
  shows "do_activate sp st =
     (case mode st of
        Select \<Rightarrow>
          (if button_cursor st = 0 then Running (move_to_list (select_all st))
           else if button_cursor st = 1 then Running (move_to_list (deselect_all st))
           else if button_cursor st = 2
           then (if list_ex selected (packages st)
                 then Running (st\<lparr>mode := Confirm, in_button_area := True, button_cursor := 0\<rparr>)
                 else Running st)
           else Exited st)
      | Confirm \<Rightarrow>
          (if button_cursor st = 0 then Running (run_updates sp st)
           else Running (st\<lparr>mode := Select, in_button_area := False\<rparr>))
      | Results \<Rightarrow> Exited st
      | Updating \<Rightarrow> Running st)"
proof (cases "mode st")
  case Select
  with assms have "0 \<le> button_cursor st" "button_cursor st < 4"
    by (simp_all add: buttons_ok_def current_buttons_def SELECT_BUTTONS_def)
  from activate_button_Select[OF Select this] Select show ?thesis
    by (simp add: do_activate_def)
next
  case Confirm
  with assms have "0 \<le> button_cursor st" "button_cursor st < 2"
    by (simp_all add: buttons_ok_def current_buttons_def CONFIRM_BUTTONS_def)
  from activate_button_Confirm[OF Confirm this] Confirm show ?thesis
    by (simp add: do_activate_def)
next
  case Updating
  then show ?thesis by (simp add: do_activate_def activate_button_def)
next
  case Results
  then show ?thesis by (simp add: do_activate_def activate_button_def)
qed

lemma do_toggle_cases:
  assumes "cursor_ok st"
  shows "do_toggle st =
     (if \<not> in_button_area st \<and> packages st \<noteq> []
      then Running (st\<lparr>packages := (packages st)[nat (cursor st) :=
              (packages st ! nat (cursor st))\<lparr>selected := \<not> selected (packages st ! nat (cursor st))\<rparr>]\<rparr>)
      else Running st)"
  using assms by (auto simp: do_toggle_def toggle_current_def py_index_def cursor_ok_def Let_def)

lemma step_Running_disj:
  assumes "buttons_ok st" "cursor_ok st" "step sp st key = Running st'"
  shows "st' = st
   \<or> st' = move_cursor st (- 1) \<or> st' = move_cursor st 1
   \<or> st' = move_cursor st (- visible_height st) \<or> st' = move_cursor st (visible_height st)
   \<or> (mode st = Select \<and> in_button_area st \<and> st' = jump_to_end (move_to_list st))
   \<or> (mode st = Select \<and> \<not> in_button_area st \<and> st' = move_to_buttons st)
   \<or> (\<not> in_button_area st \<and> st' = st\<lparr>cursor := 0, scroll_offset := 0\<rparr>)
   \<or> (\<not> in_button_area st \<and> st' = jump_to_end st)
   \<or> (mode st = Select \<and> in_button_area st \<and> st' = move_to_list (select_all st))
   \<or> (mode st = Select \<and> in_button_area st \<and> st' = move_to_list (deselect_all st))
   \<or> (mode st = Select \<and> in_button_area st \<and> button_cursor st = 2
        \<and> list_ex selected (packages st)
        \<and> st' = st\<lparr>mode := Confirm, in_button_area := True, button_cursor := 0\<rparr>)
   \<or> (mode st = Confirm \<and> in_button_area st \<and> button_cursor st = 0
        \<and> st' = run_updates sp st)
   \<or> (mode st = Confirm \<and> in_button_area st \<and> button_cursor st = 1
        \<and> st' = st\<lparr>mode := Select, in_button_area := False\<rparr>)
   \<or> (mode st = Select \<and> \<not> in_button_area st \<and> packages st \<noteq> []
        \<and> toggle_current st = Some st')"
proof -
  have conf: "button_cursor st = 0 \<or> button_cursor st = 1" if "mode st = Confirm"
    using that assms(1) by (auto simp: buttons_ok_def current_buttons_def CONFIRM_BUTTONS_def)
  have foc: "in_button_area st" if "mode st \<noteq> Select"
    using that assms(1) by (cases "mode st") (auto simp: buttons_ok_def)
  have act: "do_activate sp st = Running st' \<Longrightarrow> in_button_area st \<Longrightarrow> ?thesis"
    using conf unfolding do_activate_cases[OF assms(1)]
    by (cases "mode st") (simp_all split: if_splits)
  have tog: "do_toggle st = Running st' \<Longrightarrow> mode st = Select \<Longrightarrow> \<not> in_button_area st \<Longrightarrow> ?thesis"
  proof (cases "packages st = []")
    case True
    then show "do_toggle st = Running st' \<Longrightarrow> ?thesis"
      by (simp add: do_toggle_def toggle_current_def)
  next
    case False
    then show "do_toggle st = Running st' \<Longrightarrow> mode st = Select \<Longrightarrow> \<not> in_button_area st
      \<Longrightarrow> ?thesis"
      by (simp add: do_toggle_def split: option.splits)
  qed
  show ?thesis
  proof (cases "in_button_area st")
    case True
    with assms(3) act show ?thesis
      unfolding step_def by (simp split: if_splits)
  next
    case False
    with foc have "mode st = Select" by blast
    with assms(3) tog False show ?thesis
      unfolding step_def by (simp split: if_splits)
  qed
qed

lemma toggle_current_Some:
  assumes "toggle_current st = Some st'"
  shows "term_height st' = term_height st \<and> aur_helper st' = aur_helper st
    \<and> cursor st' = cursor st \<and> scroll_offset st' = scroll_offset st \<and> mode st' = mode st
    \<and> in_button_area st' = in_button_area st \<and> button_cursor st' = button_cursor st
    \<and> results st' = results st \<and> length (packages st') = length (packages st)"
  using assms by (auto simp: toggle_current_def split: if_splits option.splits)

lemmas op_defs = move_cursor_def move_to_list_def move_to_buttons_def jump_to_end_def
  select_all_def deselect_all_def run_updates_def visible_height_def

lemma step_frame:
  assumes "buttons_ok st" "cursor_ok st" "step sp st key = Running st'"
  shows "term_height st' = term_height st \<and> length (packages st') = length (packages st)
         \<and> aur_helper st' = aur_helper st"
  using step_Running_disj[OF assms]
  by (elim disjE conjE) (auto simp: op_defs Let_def dest!: toggle_current_Some)

lemma step_not_Crashed:
  assumes "buttons_ok st" "cursor_ok st"
  shows "step sp st key \<noteq> Crashed"
proof -
  have act: "do_activate sp st \<noteq> Crashed"
    unfolding do_activate_cases[OF assms(1)] by (simp split: Mode.splits)
  have tog: "do_toggle st \<noteq> Crashed"
    unfolding do_toggle_cases[OF assms(2)] by simp
  show ?thesis
    unfolding step_def using act tog by simp
qed

lemma step_buttons_ok:
  assumes "buttons_ok st" "cursor_ok st" "step sp st key = Running st'"
  shows "buttons_ok st'"
  using step_Running_disj[OF assms] assms(1)
  by (elim disjE conjE)
     (auto simp: op_defs Let_def buttons_ok_def
        current_buttons_def SELECT_BUTTONS_def CONFIRM_BUTTONS_def RESULTS_BUTTONS_def
        dest!: toggle_current_Some split: Mode.splits)

lemma step_cursor_ok:
  assumes "buttons_ok st" "cursor_ok st" "step sp st key = Running st'"
  shows "cursor_ok st'"
  using step_Running_disj[OF assms] assms(2)
  by (elim disjE conjE)
     (auto simp: op_defs Let_def cursor_ok_def dest!: toggle_current_Some)

lemma step_window_ok:
  assumes "buttons_ok st" "cursor_ok st" "window_ok st" "packages st \<noteq> []"
    "1 \<le> visible_height st" "step sp st key = Running st'"
  shows "window_ok st'"
  using step_Running_disj[OF assms(1,2,6)] assms(2-5)
  by (elim disjE conjE)
     (auto simp: op_defs Let_def window_ok_def cursor_ok_def dest!: toggle_current_Some)

subsection \<open>Invariants along a run\<close>

lemma init_ok:
  "buttons_ok (UpdaterTUI_init h pkgs helper)" "cursor_ok (UpdaterTUI_init h pkgs helper)"
  "confirm_ok (UpdaterTUI_init h pkgs helper)"
  by (simp_all add: UpdaterTUI_init_def buttons_ok_def cursor_ok_def confirm_ok_def
        current_buttons_def SELECT_BUTTONS_def)

lemma init_window_ok:
  "10 < h \<Longrightarrow> window_ok (UpdaterTUI_init h pkgs helper)"
  by (simp add: UpdaterTUI_init_def window_ok_def visible_height_def)

lemma step_confirm_ok:
  assumes "buttons_ok st" "cursor_ok st" "confirm_ok st" "step sp st key = Running st'"
  shows "confirm_ok st'"
  using step_Running_disj[OF assms(1,2,4)] assms(3)
  by (elim disjE conjE)
     (auto simp: op_defs Let_def confirm_ok_def dest!: toggle_current_Some)

lemma run_Running_ok:
  assumes "run sp st keys = Running st'" "buttons_ok st" "cursor_ok st"
  shows "buttons_ok st' \<and> cursor_ok st' \<and> term_height st' = term_height st
         \<and> length (packages st') = length (packages st) \<and> aur_helper st' = aur_helper st"
  using assms
proof (induction keys arbitrary: st)
  case Nil
  then show ?case by simp
next
  case (Cons key keys)
  from Cons.prems(1) obtain s1 where s1: "step sp st key = Running s1" "run sp s1 keys = Running st'"
    by (auto split: outcome.splits)
  from step_buttons_ok[OF Cons.prems(2,3) s1(1)] step_cursor_ok[OF Cons.prems(2,3) s1(1)]
    step_frame[OF Cons.prems(2,3) s1(1)] Cons.IH[OF s1(2)]
  show ?case by simp
qed

lemma run_not_Crashed:
  assumes "buttons_ok st" "cursor_ok st"
  shows "run sp st keys \<noteq> Crashed"
  using assms
proof (induction keys arbitrary: st)
  case Nil
  then show ?case by simp
next
  case (Cons key keys)
  show ?case
  proof (cases "step sp st key")
    case (Running s1)
    from step_buttons_ok[OF Cons.prems Running] step_cursor_ok[OF Cons.prems Running]
    have "run sp s1 keys \<noteq> Crashed" by (rule Cons.IH)
    with Running show ?thesis by simp
  next
    case (Exited s1)
    then show ?thesis by simp
  next
    case Crashed
    with step_not_Crashed[OF Cons.prems] show ?thesis by simp
  qed
qed

lemma run_init_not_Crashed: "run sp (UpdaterTUI_init h pkgs helper) keys \<noteq> Crashed"
  by (rule run_not_Crashed) (rule init_ok)+

lemma run_window_ok:
  assumes "run sp st keys = Running st'" "buttons_ok st" "cursor_ok st" "window_ok st"
    "packages st \<noteq> []" "1 \<le> visible_height st"
  shows "window_ok st'"
  using assms
proof (induction keys arbitrary: st)
  case Nil
  then show ?case by simp
next
  case (Cons key keys)
  from Cons.prems(1) obtain s1 where s1: "step sp st key = Running s1" "run sp s1 keys = Running st'"
    by (auto split: outcome.splits)
  note fr = step_frame[OF Cons.prems(2,3) s1(1)]
  have "packages s1 \<noteq> []" using fr Cons.prems(5) by auto
  moreover have "1 \<le> visible_height s1" using fr Cons.prems(6) by (simp add: visible_height_def)
  ultimately show ?case
    using Cons.IH[OF s1(2) step_buttons_ok[OF Cons.prems(2,3) s1(1)]
      step_cursor_ok[OF Cons.prems(2,3) s1(1)]
      step_window_ok[OF Cons.prems(2,3,4,5,6) s1(1)]]
    by simp
qed

lemma run_confirm_ok:
  assumes "run sp st keys = Running st'" "buttons_ok st" "cursor_ok st" "confirm_ok st"
  shows "confirm_ok st'"
  using assms
proof (induction keys arbitrary: st)
  case Nil
  then show ?case by simp
next
  case (Cons key keys)
  from Cons.prems(1) obtain s1 where s1: "step sp st key = Running s1" "run sp s1 keys = Running st'"
    by (auto split: outcome.splits)
  show ?case
    using Cons.IH[OF s1(2) step_buttons_ok[OF Cons.prems(2,3) s1(1)]
      step_cursor_ok[OF Cons.prems(2,3) s1(1)]
      step_confirm_ok[OF Cons.prems(2,3,4) s1(1)]] .
qed

subsection \<open>Toggling the item under the cursor\<close>

text \<open>
  Claim C7. With list focus and the cursor on a valid index, \<open>toggle_current\<close> returns
  normally; the new state differs from the old one in the catalog only; the catalog keeps its
  length; the item under the cursor has its \<open>selected\<close> flag negated and its other
  fields unchanged; every other item is unchanged; the cursor does not move; and a second
  toggle gives back the original state.
\<close>

theorem toggle_current_flips_one:
  assumes "\<not> in_button_area st" "0 \<le> cursor st" "cursor st < int (length (packages st))"
  shows "\<exists>st'. toggle_current st = Some st'
     \<and> st' = st\<lparr>packages := packages st'\<rparr>
     \<and> cursor st' = cursor st
     \<and> length (packages st') = length (packages st)
     \<and> selected (packages st' ! nat (cursor st)) = (\<not> selected (packages st ! nat (cursor st)))
     \<and> packages st' ! nat (cursor st)
         = (packages st ! nat (cursor st))\<lparr>selected := selected (packages st' ! nat (cursor st))\<rparr>
     \<and> (\<forall>j < length (packages st). j \<noteq> nat (cursor st) \<longrightarrow> packages st' ! j = packages st ! j)
     \<and> toggle_current st' = Some st"
  using assms by (auto simp: toggle_current_def py_index_def Let_def)

text \<open>
  The scenario of the specification: catalog \<open>[pkgA (selected), pkgB (not selected)]\<close>,
  toggle at index 1; afterwards both items are selected, in the original order.
\<close>

theorem toggle_current_flips_one_witness:
  "toggle_current two_items = Some (two_items\<lparr>packages := [pkgA, pkgB\<lparr>selected := True\<rparr>]\<rparr>)
   \<and> toggle_current (two_items\<lparr>packages := [pkgA, pkgB\<lparr>selected := True\<rparr>]\<rparr>) = Some two_items
   \<and> selected_pkgs [pkgA, pkgB\<lparr>selected := True\<rparr>] = [pkgA, pkgB\<lparr>selected := True\<rparr>]"
  using toggle_current_flips_one[of two_items]
  by (simp add: two_items_def UpdaterTUI_init_def toggle_current_def py_index_def pkgA_def pkgB_def selected_pkgs_def)

subsection \<open>Evaluating keystrokes\<close>

lemmas key_defs = KEY_UP_def KEY_DOWN_def KEY_LEFT_def KEY_RIGHT_def KEY_ENTER_def KEY_END_def
  SPACE_def is_up_def is_down_def is_named_def is_space_key_def is_quit_def lower_def lower_char_def
  latin1_upper_def latin1_lower_def

lemma run_to_confirming:
  "run all_succeed (UpdaterTUI_init 24 [pkgA, pkgB] None)
      [KEY_DOWN, KEY_DOWN, KEY_RIGHT, KEY_RIGHT, SPACE] = Running confirming"
  by (simp add: confirming_def UpdaterTUI_init_def step_def key_defs op_defs
          do_activate_def activate_button_def py_index_def SELECT_BUTTONS_def current_buttons_def
          pkgA_def pkgB_def)

lemma list_ex_selected: "list_ex selected ps = (selected_pkgs ps \<noteq> [])"
  by (induction ps) (auto simp: selected_pkgs_def)

subsection \<open>Cursor and scroll window\<close>

text \<open>
  Claim C1 fails as stated when the terminal has no more than the ten reserved rows, because
  the page size is then not positive. On a terminal of height 10 with two items, one Down key
  leaves the session in select mode with list focus, cursor 1 and scroll offset 2: the scroll
  offset is beyond the cursor.
\<close>

theorem cursor_window_counterexample:
  "run all_succeed tiny_terminal [KEY_DOWN] = Running (tiny_terminal\<lparr>cursor := 1, scroll_offset := 2\<rparr>)
   \<and> mode (tiny_terminal\<lparr>cursor := 1, scroll_offset := 2\<rparr>) = Select
   \<and> \<not> in_button_area (tiny_terminal\<lparr>cursor := 1, scroll_offset := 2\<rparr>)
   \<and> packages (tiny_terminal\<lparr>cursor := 1, scroll_offset := 2\<rparr>) \<noteq> []
   \<and> \<not> (scroll_offset (tiny_terminal\<lparr>cursor := 1, scroll_offset := 2\<rparr>)
          \<le> cursor (tiny_terminal\<lparr>cursor := 1, scroll_offset := 2\<rparr>))"
  by (simp add: tiny_terminal_def UpdaterTUI_init_def step_def key_defs move_cursor_def visible_height_def)

text \<open>
  Claim C1 as amended: for a non-empty catalog and a terminal of fixed height \<open>h\<close>, in
  every state reached from the initial state by any sequence of keystrokes (in any mode and
  with any focus) the cursor is within \<open>[0, len(catalog) - 1]\<close>, the catalog keeps its
  length and the page size is \<open>h - 10\<close>; if \<open>h > 10\<close> then also
  \<open>scroll_offset \<le> cursor < scroll_offset + page_size\<close>.
\<close>

theorem cursor_stays_in_window:
  assumes "pkgs \<noteq> []" "run sp (UpdaterTUI_init h pkgs helper) keys = Running st"
  shows "0 \<le> cursor st \<and> cursor st \<le> int (length (packages st)) - 1
     \<and> length (packages st) = length pkgs \<and> visible_height st = h - 10
     \<and> (10 < h \<longrightarrow> scroll_offset st \<le> cursor st
                    \<and> cursor st < scroll_offset st + visible_height st)"
proof -
  let ?s0 = "UpdaterTUI_init h pkgs helper"
  note ok = run_Running_ok[OF assms(2) init_ok(1,2)]
  have len: "length (packages st) = length pkgs" and ht: "term_height st = h"
    using ok by (simp_all add: UpdaterTUI_init_def)
  have "packages st \<noteq> []" using len assms(1) by auto
  with ok have rng: "0 \<le> cursor st \<and> cursor st \<le> int (length (packages st)) - 1"
    by (simp add: cursor_ok_def)
  have win: "window_ok st" if "10 < h"
  proof -
    have "packages ?s0 \<noteq> []" "1 \<le> visible_height ?s0"
      using assms(1) that by (simp_all add: UpdaterTUI_init_def visible_height_def)
    from run_window_ok[OF assms(2) init_ok(1,2) init_window_ok[OF that] this]
    show ?thesis .
  qed
  show ?thesis using rng len ht win by (simp add: window_ok_def visible_height_def)
qed

text \<open>
  The scenario of the specification: page size 5 (height 15), 12 items, End pressed;
  the cursor is 11 and the scroll offset 7.
\<close>

theorem cursor_stays_in_window_witness:
  "replicate 12 pkgA \<noteq> [] \<and> (10::int) < 15
   \<and> run all_succeed paged_list [KEY_END] = Running (paged_list\<lparr>cursor := 11, scroll_offset := 7\<rparr>)
   \<and> visible_height (paged_list\<lparr>cursor := 11, scroll_offset := 7\<rparr>) = 5
   \<and> scroll_offset (paged_list\<lparr>cursor := 11, scroll_offset := 7\<rparr>)
        \<le> cursor (paged_list\<lparr>cursor := 11, scroll_offset := 7\<rparr>)
   \<and> cursor (paged_list\<lparr>cursor := 11, scroll_offset := 7\<rparr>)
        < scroll_offset (paged_list\<lparr>cursor := 11, scroll_offset := 7\<rparr>)
          + visible_height (paged_list\<lparr>cursor := 11, scroll_offset := 7\<rparr>)"
proof -
  have r: "run all_succeed (UpdaterTUI_init 15 (replicate 12 pkgA) None) [KEY_END]
      = Running (paged_list\<lparr>cursor := 11, scroll_offset := 7\<rparr>)"
    by (simp add: paged_list_def UpdaterTUI_init_def step_def key_defs jump_to_end_def
          visible_height_def)
  have n: "replicate 12 pkgA \<noteq> []" by simp
  from cursor_stays_in_window[OF n r] r show ?thesis
    by (simp add: paged_list_def)
qed

subsection \<open>The confirm screen\<close>

text \<open>
  Claim C6. In every state reached from the initial state by any sequence of keystrokes, the
  mode is \<open>Confirm\<close> only if at least one item is selected; and with the Update button
  focused and nothing selected, activating the button (Enter or Space) changes nothing, so the
  session stays in select mode.
\<close>

theorem confirm_never_empty:
  assumes "run sp (UpdaterTUI_init h pkgs helper) keys = Running st"
  shows "(mode st = Confirm \<longrightarrow> selected_pkgs (packages st) \<noteq> [])
     \<and> (mode st = Select \<and> in_button_area st \<and> button_cursor st = 2
          \<and> selected_pkgs (packages st) = []
        \<longrightarrow> activate_button st = Some (st, None) \<and> step sp st KEY_ENTER = Running st
            \<and> step sp st SPACE = Running st)"
proof -
  note ok = run_Running_ok[OF assms init_ok(1,2)]
  from run_confirm_ok[OF assms init_ok] have a: "mode st = Confirm \<longrightarrow> selected_pkgs (packages st) \<noteq> []"
    by (simp add: confirm_ok_def list_ex_selected)
  have b: "activate_button st = Some (st, None) \<and> step sp st KEY_ENTER = Running st
            \<and> step sp st SPACE = Running st"
    if "mode st = Select" "in_button_area st" "button_cursor st = 2" "selected_pkgs (packages st) = []"
  proof -
    have "activate_button st = Some (st, None)"
      using that activate_button_Select[of st] by (simp add: list_ex_selected)
    moreover have "do_activate sp st = Running st"
      using that ok by (simp add: do_activate_cases list_ex_selected)
    ultimately show ?thesis using that
      by (simp add: step_def key_defs)
  qed
  from a b show ?thesis by blast
qed

theorem confirm_never_empty_witness:
  "run all_succeed (UpdaterTUI_init 24 [pkgA, pkgB] None) [KEY_DOWN, KEY_DOWN, KEY_RIGHT, KEY_RIGHT, SPACE]
     = Running confirming
   \<and> mode confirming = Confirm \<and> selected_pkgs (packages confirming) = [pkgA]
   \<and> run all_succeed (UpdaterTUI_init 24 [pkgB] None) [KEY_DOWN, KEY_RIGHT, KEY_RIGHT]
     = Running nothing_selected
   \<and> mode nothing_selected = Select \<and> in_button_area nothing_selected \<and> button_cursor nothing_selected = 2
   \<and> selected_pkgs (packages nothing_selected) = []
   \<and> activate_button nothing_selected = Some (nothing_selected, None)
   \<and> step all_succeed nothing_selected KEY_ENTER = Running nothing_selected"
proof -
  have r1: "run all_succeed (UpdaterTUI_init 24 [pkgA, pkgB] None)
      [KEY_DOWN, KEY_DOWN, KEY_RIGHT, KEY_RIGHT, SPACE] = Running confirming"
    by (simp add: confirming_def UpdaterTUI_init_def step_def key_defs op_defs
          do_activate_def activate_button_def py_index_def SELECT_BUTTONS_def current_buttons_def
          pkgA_def pkgB_def)
  have r2: "run all_succeed (UpdaterTUI_init 24 [pkgB] None) [KEY_DOWN, KEY_RIGHT, KEY_RIGHT]
     = Running nothing_selected"
    by (simp add: nothing_selected_def UpdaterTUI_init_def step_def key_defs op_defs
          SELECT_BUTTONS_def current_buttons_def)
  have f: "mode confirming = Confirm" "selected_pkgs (packages confirming) = [pkgA]"
    "mode nothing_selected = Select" "in_button_area nothing_selected" "button_cursor nothing_selected = 2"
    "selected_pkgs (packages nothing_selected) = []"
    by (simp_all add: confirming_def nothing_selected_def UpdaterTUI_init_def selected_pkgs_def
          pkgA_def pkgB_def)
  from confirm_never_empty[OF r1] confirm_never_empty[OF r2] r1 r2 f show ?thesis
    by simp
qed

lemma step_in_Confirm:
  assumes "buttons_ok st" "cursor_ok st" "mode st = Confirm" "step sp st key = Running st'"
  shows "(mode st' = Confirm \<and> st' = st\<lparr>button_cursor := button_cursor st'\<rparr>)
     \<or> (mode st' = Select \<and> button_cursor st = 1
         \<and> st' = st\<lparr>mode := Select, in_button_area := False\<rparr>)
     \<or> (mode st' = Results \<and> button_cursor st = 0 \<and> st' = run_updates sp st)"
proof -
  have foc: "in_button_area st" using assms(1,3) by (simp add: buttons_ok_def)
  show ?thesis
    using step_Running_disj[OF assms(1,2,4)] assms(3) foc
    by (elim disjE conjE) (simp_all add: move_cursor_def run_updates_def)
qed

lemma stay_in_Confirm:
  assumes "buttons_ok st" "cursor_ok st" "mode st = Confirm"
    and "\<forall>i\<le>length keys. \<exists>s. run sp st (take i keys) = Running s \<and> mode s = Confirm"
    and "run sp st keys = Running s"
  shows "s = st\<lparr>button_cursor := button_cursor s\<rparr> \<and> buttons_ok s \<and> cursor_ok s"
  using assms
proof (induction keys arbitrary: st)
  case Nil
  then show ?case by simp
next
  case (Cons key keys)
  from Cons.prems(4) have "\<exists>s. run sp st (take 1 (key # keys)) = Running s \<and> mode s = Confirm"
    by (metis One_nat_def Suc_leI length_Cons zero_less_Suc)
  then obtain s1 where s1: "step sp st key = Running s1" "mode s1 = Confirm"
    by (auto split: outcome.splits)
  from step_in_Confirm[OF Cons.prems(1,2,3) s1(1)] s1(2)
  have eq: "s1 = st\<lparr>button_cursor := button_cursor s1\<rparr>" by auto
  have ok1: "buttons_ok s1" "cursor_ok s1"
    using step_buttons_ok[OF Cons.prems(1,2) s1(1)] step_cursor_ok[OF Cons.prems(1,2) s1(1)] .
  have stay1: "\<forall>i\<le>length keys. \<exists>s. run sp s1 (take i keys) = Running s \<and> mode s = Confirm"
  proof (intro allI impI)
    fix i assume "i \<le> length keys"
    then have "Suc i \<le> length (key # keys)" by simp
    with Cons.prems(4) have "\<exists>s. run sp st (take (Suc i) (key # keys)) = Running s \<and> mode s = Confirm"
      by blast
    then show "\<exists>s. run sp s1 (take i keys) = Running s \<and> mode s = Confirm"
      using s1(1) by simp
  qed
  from Cons.prems(5) s1(1) have fin1: "run sp s1 keys = Running s" by simp
  from Cons.IH[OF ok1 s1(2) stay1 fin1]
  have "s = s1\<lparr>button_cursor := button_cursor s\<rparr>" "buttons_ok s" "cursor_ok s" by simp_all
  moreover from this(1) eq have "s = st\<lparr>button_cursor := button_cursor s\<rparr>"
    by (metis UpdaterTUI.update_convs(8) UpdaterTUI.surjective UpdaterTUI.select_convs)
  ultimately show ?case by simp
qed

text \<open>
  Claim C9. Let \<open>st\<close> be a reachable state in confirm mode, and let the keystrokes
  \<open>keys\<close> keep the session in confirm mode up to a state \<open>s\<close> whose button cursor
  is on "Go Back". Then Enter leads to select mode with list focus, and cursor, scroll offset
  and the whole catalog (so every \<open>selected\<close> flag) are those of \<open>st\<close>.
\<close>

theorem go_back_restores_browsing:
  assumes reach: "run sp0 (UpdaterTUI_init h pkgs helper) keys0 = Running st"
    and conf: "mode st = Confirm"
    and stay: "\<forall>i\<le>length keys. \<exists>s. run sp st (take i keys) = Running s \<and> mode s = Confirm"
    and fin: "run sp st keys = Running s" "button_cursor s = 1"
    and key: "key_name key = Some ''KEY_ENTER''" "\<not> is_up key" "\<not> is_down key"
      "\<not> is_space_key key"
  shows "\<exists>st'. step sp s key = Running st' \<and> mode st' = Select \<and> \<not> in_button_area st'
     \<and> cursor st' = cursor st \<and> scroll_offset st' = scroll_offset st
     \<and> packages st' = packages st"
proof -
  note ok = run_Running_ok[OF reach init_ok(1,2)]
  from stay_in_Confirm[OF _ _ conf stay fin(1)] ok
  have s: "s = st\<lparr>button_cursor := button_cursor s\<rparr>" "buttons_ok s" by simp_all
  from s(1) conf have ms: "mode s = Confirm"
    by (metis UpdaterTUI.select_convs(6) UpdaterTUI.surjective UpdaterTUI.update_convs(8))
  with s(2) have foc: "in_button_area s" by (simp add: buttons_ok_def)
  have "do_activate sp s = Running (s\<lparr>mode := Select, in_button_area := False\<rparr>)"
    using ms fin(2) by (simp add: do_activate_cases[OF s(2)])
  then have "step sp s key = Running (s\<lparr>mode := Select, in_button_area := False\<rparr>)"
    using key ms foc by (simp add: step_def is_named_def)
  moreover have "cursor s = cursor st" "scroll_offset s = scroll_offset st" "packages s = packages st"
    using s(1) by (metis UpdaterTUI.select_convs UpdaterTUI.surjective UpdaterTUI.update_convs(8))+
  ultimately show ?thesis by simp
qed

theorem go_back_restores_browsing_witness:
  "step all_succeed (confirming\<lparr>button_cursor := 1\<rparr>) KEY_ENTER
     = Running (confirming\<lparr>button_cursor := 1, mode := Select, in_button_area := False\<rparr>)
   \<and> cursor (confirming\<lparr>button_cursor := 1, mode := Select, in_button_area := False\<rparr>)
       = cursor confirming
   \<and> packages (confirming\<lparr>button_cursor := 1, mode := Select, in_button_area := False\<rparr>)
       = packages confirming"
proof -
  have r: "run all_succeed confirming [KEY_RIGHT] = Running (confirming\<lparr>button_cursor := 1\<rparr>)"
    by (simp add: confirming_def UpdaterTUI_init_def step_def key_defs move_cursor_def
          current_buttons_def CONFIRM_BUTTONS_def)
  have m: "mode confirming = Confirm" "button_cursor (confirming\<lparr>button_cursor := 1\<rparr>) = 1"
    by (simp_all add: confirming_def)
  have stay: "\<forall>i\<le>length [KEY_RIGHT].
      \<exists>s. run all_succeed confirming (take i [KEY_RIGHT]) = Running s \<and> mode s = Confirm"
  proof (intro allI impI)
    fix i :: nat assume "i \<le> length [KEY_RIGHT]"
    then have "i = 0 \<or> i = 1" by auto
    then show "\<exists>s. run all_succeed confirming (take i [KEY_RIGHT]) = Running s \<and> mode s = Confirm"
      using r m by auto
  qed
  have k: "key_name KEY_ENTER = Some ''KEY_ENTER''" "\<not> is_up KEY_ENTER" "\<not> is_down KEY_ENTER"
    "\<not> is_space_key KEY_ENTER"
    by (simp_all add: key_defs)
  from go_back_restores_browsing[OF run_to_confirming m(1) stay r m(2) k]
  obtain st' where st': "step all_succeed (confirming\<lparr>button_cursor := 1\<rparr>) KEY_ENTER = Running st'"
    "mode st' = Select" "\<not> in_button_area st'" "cursor st' = cursor confirming"
    "packages st' = packages confirming" by blast
  have "step all_succeed (confirming\<lparr>button_cursor := 1\<rparr>) KEY_ENTER
     = Running (confirming\<lparr>button_cursor := 1, mode := Select, in_button_area := False\<rparr>)"
    by (simp add: confirming_def UpdaterTUI_init_def step_def key_defs do_activate_def
          activate_button_def py_index_def CONFIRM_BUTTONS_def)
  with st' show ?thesis by simp
qed

subsection \<open>Vertical keys on the button row\<close>

text \<open>
  Claim C10 fails for the down keys: on the confirm screen Down (and \<open>j\<close>) leave the
  state as it is, while Right moves the button cursor from 0 to 1.
\<close>

theorem down_key_counterexample:
  "mode confirming = Confirm \<and> in_button_area confirming
   \<and> step all_succeed confirming KEY_DOWN = Running confirming
   \<and> step all_succeed confirming KEY_j = Running confirming
   \<and> step all_succeed confirming KEY_RIGHT = Running (confirming\<lparr>button_cursor := 1\<rparr>)
   \<and> button_cursor confirming = 0"
  by (simp add: confirming_def UpdaterTUI_init_def step_def key_defs KEY_j_def move_cursor_def
        current_buttons_def CONFIRM_BUTTONS_def)

text \<open>
  Claim C10 as amended: in every reachable state in confirm or results mode the focus is on
  the buttons; an up key (Up, \<open>w\<close>, \<open>k\<close>) moves the button cursor exactly as the Left
  key does, to \<open>max 0 (min (count - 1) (button_cursor - 1))\<close>; a down key (Down,
  \<open>s\<close>, \<open>j\<close>) that is not also an up key leaves the state unchanged.
\<close>

theorem up_like_left_down_inert:
  assumes "run sp0 (UpdaterTUI_init h pkgs helper) keys = Running st"
    and "mode st = Confirm \<or> mode st = Results"
  shows "in_button_area st
     \<and> (is_up key \<longrightarrow>
          step sp st key = Running (st\<lparr>button_cursor :=
             max 0 (min (int (length (current_buttons st)) - 1) (button_cursor st - 1))\<rparr>)
          \<and> step sp st key = step sp st KEY_LEFT)
     \<and> (\<not> is_up key \<and> is_down key \<longrightarrow> step sp st key = Running st)"
proof -
  note ok = run_Running_ok[OF assms(1) init_ok(1,2)]
  with assms(2) have foc: "in_button_area st" by (auto simp: buttons_ok_def)
  have ns: "mode st \<noteq> Select" using assms(2) by auto
  have left: "step sp st KEY_LEFT = Running (move_cursor st (- 1))"
    using foc assms(2) by (auto simp: step_def key_defs)
  have mv: "move_cursor st (- 1) = st\<lparr>button_cursor :=
             max 0 (min (int (length (current_buttons st)) - 1) (button_cursor st - 1))\<rparr>"
    using foc by (simp add: move_cursor_def)
  have up: "step sp st key = Running (move_cursor st (- 1))" if "is_up key"
    using that foc ns assms(2) by (auto simp: step_def)
  have down: "step sp st key = Running st" if "\<not> is_up key" "is_down key"
    using that foc ns assms(2) by (auto simp: step_def)
  show ?thesis using foc left mv up down by simp
qed

theorem up_like_left_down_inert_witness:
  "step all_succeed (confirming\<lparr>button_cursor := 1\<rparr>) KEY_UP = Running confirming
   \<and> step all_succeed (confirming\<lparr>button_cursor := 1\<rparr>) KEY_LEFT = Running confirming
   \<and> step all_succeed (confirming\<lparr>button_cursor := 1\<rparr>) KEY_j
       = Running (confirming\<lparr>button_cursor := 1\<rparr>)"
proof -
  have r: "run all_succeed (UpdaterTUI_init 24 [pkgA, pkgB] None)
      ([KEY_DOWN, KEY_DOWN, KEY_RIGHT, KEY_RIGHT, SPACE] @ [KEY_RIGHT])
      = Running (confirming\<lparr>button_cursor := 1\<rparr>)"
    by (simp add: confirming_def UpdaterTUI_init_def step_def key_defs op_defs
          do_activate_def activate_button_def py_index_def SELECT_BUTTONS_def CONFIRM_BUTTONS_def
          current_buttons_def pkgA_def pkgB_def)
  have m: "mode (confirming\<lparr>button_cursor := 1\<rparr>) = Confirm
      \<or> mode (confirming\<lparr>button_cursor := 1\<rparr>) = Results"
    by (simp add: confirming_def)
  have k: "is_up KEY_UP" "\<not> is_up KEY_j" "is_down KEY_j"
    by (simp_all add: key_defs KEY_j_def)
  have b: "(confirming\<lparr>button_cursor := 1\<rparr>)\<lparr>button_cursor :=
             max 0 (min (int (length (current_buttons (confirming\<lparr>button_cursor := 1\<rparr>))) - 1)
               (button_cursor (confirming\<lparr>button_cursor := 1\<rparr>) - 1))\<rparr> = confirming"
    by (simp add: confirming_def UpdaterTUI_init_def current_buttons_def CONFIRM_BUTTONS_def)
  from up_like_left_down_inert[OF r m, of KEY_UP all_succeed]
    up_like_left_down_inert[OF r m, of KEY_j all_succeed] k b
  show ?thesis by auto
qed

subsection \<open>The update executor\<close>

lemma update_loop_length: "length (update_loop sp argv k ps) = length ps"
  by (induction ps arbitrary: k) simp_all

lemma update_loop_nth:
  "i < length ps \<Longrightarrow> update_loop sp argv k ps ! i = record_result (ps ! i) (sp (k + i) (argv (ps ! i)))"
proof (induction ps arbitrary: k i)
  case Nil
  then show ?case by simp
next
  case (Cons p ps)
  show ?case
  proof (cases i)
    case 0
    then show ?thesis by simp
  next
    case (Suc m)
    with Cons.prems have "m < length ps" by simp
    from Cons.IH[OF this, of "Suc k"] Suc show ?thesis by simp
  qed
qed

lemma one_False:
  "k < n \<Longrightarrow> length (filter Not ((replicate n True)[k := False])) = 1"
proof (induction n arbitrary: k)
  case 0
  then show ?case by simp
next
  case (Suc n)
  then show ?case by (cases k) simp_all
qed

lemma update_loop_append:
  "update_loop sp argv k (ps @ qs)
     = update_loop sp argv k ps @ update_loop sp argv (k + length ps) qs"
  by (induction ps arbitrary: k) simp_all

lemma update_loop_cong:
  "(\<And>p. p \<in> set ps \<Longrightarrow> argv p = argv' p) \<Longrightarrow> update_loop sp argv k ps = update_loop sp argv' k ps"
  by (induction ps arbitrary: k) simp_all

lemma execute_eq:
  "execute sp helper pkgs = update_loop sp (command_of helper) 0 (executed_batch helper pkgs)"
proof -
  have pac: "pacman_results sp helper pkgs
      = update_loop sp (command_of helper) 0
          (if truthy helper then official_pkgs pkgs @ aur_pkgs pkgs else [])"
  proof (cases "truthy helper")
    case True
    have "update_loop sp (pacman_argv (case helper of Some h \<Rightarrow> h | None \<Rightarrow> [])) 0 (pacman_pkgs pkgs)
        = update_loop sp (command_of helper) 0 (pacman_pkgs pkgs)"
      by (rule update_loop_cong)
         (auto simp: command_of_def pacman_pkgs_def official_pkgs_def aur_pkgs_def)
    with True show ?thesis
      by (auto simp: pacman_results_def pacman_pkgs_def)
  next
    case False
    then show ?thesis by (simp add: pacman_results_def)
  qed
  have fl: "(if flatpak_pkgs pkgs \<noteq> [] then update_loop sp flatpak_argv k (flatpak_pkgs pkgs) else [])
      = update_loop sp (command_of helper) k (flatpak_pkgs pkgs)" for k
  proof -
    have "update_loop sp flatpak_argv k (flatpak_pkgs pkgs)
        = update_loop sp (command_of helper) k (flatpak_pkgs pkgs)"
      by (rule update_loop_cong) (auto simp: command_of_def flatpak_pkgs_def)
    then show ?thesis by auto
  qed
  show ?thesis
    unfolding execute_def Let_def fl pac executed_batch_def update_loop_append
    by (simp add: update_loop_length)
qed

lemma record_result_fields:
  "r_name (record_result p c) = name p" "r_source (record_result p c) = source p"
  "success (record_result p c) = (returncode c = 0)"
  by (simp_all add: record_result_def)

lemma execute_nth:
  assumes "i < length (executed_batch helper pkgs)"
  shows "execute sp helper pkgs ! i
     = record_result (executed_batch helper pkgs ! i)
         (sp i (command_of helper (executed_batch helper pkgs ! i)))"
  using assms by (simp add: execute_eq update_loop_nth)

lemma execute_length: "length (execute sp helper pkgs) = length (executed_batch helper pkgs)"
  by (simp add: execute_eq update_loop_length)

lemmas exec_defs = run_updates_def execute_def pacman_results_def pacman_pkgs_def official_pkgs_def
  aur_pkgs_def flatpak_pkgs_def selected_pkgs_def truthy_def record_result_def
  pacman_argv_def flatpak_argv_def

text \<open>
  Claim C3. Let exactly one of the update commands that \<open>run_updates\<close> starts, the
  \<open>k\<close>-th, exit with a non-zero status. Then the results name the packages of the batch
  in the order of the batch, entry \<open>k\<close> is the only one with \<open>success = False\<close>,
  every other entry has \<open>success = True\<close>, and with a helper available the batch is
  the selected official packages, then the selected AUR packages, then the selected flatpaks,
  each group in catalog order.
\<close>

theorem one_failure_in_batch_order:
  assumes "k < length (executed_batch (aur_helper st) (packages st))"
    and "returncode (sp k (command_of (aur_helper st)
           (executed_batch (aur_helper st) (packages st) ! k))) \<noteq> 0"
    and "\<forall>j < length (executed_batch (aur_helper st) (packages st)). j \<noteq> k \<longrightarrow>
           returncode (sp j (command_of (aur_helper st)
             (executed_batch (aur_helper st) (packages st) ! j))) = 0"
  shows "map r_name (results (run_updates sp st))
           = map name (executed_batch (aur_helper st) (packages st))
     \<and> map r_source (results (run_updates sp st))
           = map source (executed_batch (aur_helper st) (packages st))
     \<and> map success (results (run_updates sp st))
           = (replicate (length (executed_batch (aur_helper st) (packages st))) True)[k := False]
     \<and> length (filter (\<lambda>r. \<not> success r) (results (run_updates sp st))) = 1
     \<and> (truthy (aur_helper st) \<longrightarrow>
          executed_batch (aur_helper st) (packages st)
            = filter (\<lambda>p. source p = OFFICIAL) (filter selected (packages st))
              @ filter (\<lambda>p. source p = AUR) (filter selected (packages st))
              @ filter (\<lambda>p. source p = FLATPAK) (filter selected (packages st)))"
proof -
  let ?b = "executed_batch (aur_helper st) (packages st)"
  let ?r = "results (run_updates sp st)"
  have r: "?r = execute sp (aur_helper st) (packages st)" by (simp add: run_updates_def)
  have len: "length ?r = length ?b" by (simp add: r execute_length)
  have nth: "?r ! i = record_result (?b ! i) (sp i (command_of (aur_helper st) (?b ! i)))"
    if "i < length ?b" for i using that by (simp add: r execute_nth)
  have n: "map r_name ?r = map name ?b"
    by (rule nth_equalityI) (simp_all add: len nth record_result_fields)
  have s: "map r_source ?r = map source ?b"
    by (rule nth_equalityI) (simp_all add: len nth record_result_fields)
  have suc: "map success ?r = (replicate (length ?b) True)[k := False]"
  proof (rule nth_equalityI)
    show "length (map success ?r) = length ((replicate (length ?b) True)[k := False])"
      by (simp add: len)
  next
    fix i assume "i < length (map success ?r)"
    then have i: "i < length ?b" by (simp add: len)
    show "map success ?r ! i = (replicate (length ?b) True)[k := False] ! i"
      using i assms(2,3) by (cases "i = k") (simp_all add: len nth record_result_fields)
  qed
  have "length (filter (\<lambda>r. \<not> success r) ?r) = length (filter Not (map success ?r))"
    by (simp add: filter_map comp_def)
  with one_False[OF assms(1)] suc have one: "length (filter (\<lambda>r. \<not> success r) ?r) = 1"
    by simp
  have ord: "truthy (aur_helper st) \<longrightarrow> ?b
            = filter (\<lambda>p. source p = OFFICIAL) (filter selected (packages st))
              @ filter (\<lambda>p. source p = AUR) (filter selected (packages st))
              @ filter (\<lambda>p. source p = FLATPAK) (filter selected (packages st))"
    by (simp add: executed_batch_def official_pkgs_def aur_pkgs_def flatpak_pkgs_def
          selected_pkgs_def)
  from n s suc one ord show ?thesis by blast
qed

theorem one_failure_in_batch_order_witness:
  "results (run_updates (fail_at 1 ''error: target not found: pkgB'') (three_selected (Some ''paru'')))
     = [\<lparr>r_name = ''pkgA'', r_source = OFFICIAL, success = True, error = []\<rparr>,
        \<lparr>r_name = ''pkgB'', r_source = AUR, success = False,
         error = ''error: target not found: pkgB''\<rparr>,
        \<lparr>r_name = ''org.app.F'', r_source = FLATPAK, success = True, error = []\<rparr>]
   \<and> length (filter (\<lambda>r. \<not> success r)
         (results (run_updates (fail_at 1 ''error: target not found: pkgB'')
            (three_selected (Some ''paru''))))) = 1"
proof -
  let ?st = "three_selected (Some ''paru'')"
  let ?sp = "fail_at 1 ''error: target not found: pkgB''"
  have b: "executed_batch (aur_helper ?st) (packages ?st) = [pkgA, pkgB\<lparr>selected := True\<rparr>, pkgF]"
    by (simp add: executed_batch_def three_selected_def UpdaterTUI_init_def exec_defs
          pkgA_def pkgB_def pkgF_def)
  have h1: "1 < length (executed_batch (aur_helper ?st) (packages ?st))"
    by (simp add: b)
  have h2: "returncode (?sp 1 (command_of (aur_helper ?st)
           (executed_batch (aur_helper ?st) (packages ?st) ! 1))) \<noteq> 0"
    by (simp add: fail_at_def)
  have h3: "\<forall>j < length (executed_batch (aur_helper ?st) (packages ?st)). j \<noteq> 1 \<longrightarrow>
           returncode (?sp j (command_of (aur_helper ?st)
             (executed_batch (aur_helper ?st) (packages ?st) ! j))) = 0"
    by (simp add: fail_at_def)
  have r: "results (run_updates ?sp ?st)
     = [\<lparr>r_name = ''pkgA'', r_source = OFFICIAL, success = True, error = []\<rparr>,
        \<lparr>r_name = ''pkgB'', r_source = AUR, success = False,
         error = ''error: target not found: pkgB''\<rparr>,
        \<lparr>r_name = ''org.app.F'', r_source = FLATPAK, success = True, error = []\<rparr>]"
    by (simp add: three_selected_def UpdaterTUI_init_def exec_defs fail_at_def
          pkgA_def pkgB_def pkgF_def last_error_def error_lines_def split_on_def nl_def
          strip_def is_space_def)
  from one_failure_in_batch_order[of 1 ?st ?sp] h1 h2 h3 r show ?thesis by simp
qed

text \<open>
  Claim C4. Without an AUR helper, whatever is selected, the helper batch contributes no
  result at all. The results are one per selected flatpak and no other, in catalog order
  (\<open>fl\<close> is the list of the selected flatpaks); every result has source
  \<open>FLATPAK\<close>; result \<open>i\<close> is a success exactly when the \<open>i\<close>-th command
  \<open>flatpak update -y name\<close> exits with status 0, with an empty error then and the
  captured last error line otherwise.
\<close>

theorem no_helper_skips_pacman_batch:
  assumes "aur_helper st = None"
    and "fl = filter (\<lambda>p. source p = FLATPAK) (filter selected (packages st))"
  shows "pacman_results sp (aur_helper st) (packages st) = []
     \<and> length (results (run_updates sp st)) = length fl
     \<and> map r_name (results (run_updates sp st)) = map name fl
     \<and> (\<forall>r \<in> set (results (run_updates sp st)). r_source r = FLATPAK)
     \<and> (\<forall>i < length fl.
           success (results (run_updates sp st) ! i)
             = (returncode (sp i [''flatpak'', ''update'', ''-y'', name (fl ! i)]) = 0)
           \<and> error (results (run_updates sp st) ! i)
             = (if returncode (sp i [''flatpak'', ''update'', ''-y'', name (fl ! i)]) = 0 then []
                else last_error (stderr (sp i [''flatpak'', ''update'', ''-y'', name (fl ! i)]))))"
proof -
  have f: "flatpak_pkgs (packages st) = fl"
    by (simp add: assms(2) flatpak_pkgs_def selected_pkgs_def)
  have p: "pacman_results sp (aur_helper st) (packages st) = []"
    using assms(1) by (simp add: pacman_results_def truthy_def)
  have r: "results (run_updates sp st) = update_loop sp flatpak_argv 0 fl"
    using p f by (cases "fl = []") (simp_all add: run_updates_def execute_def)
  have len: "length (results (run_updates sp st)) = length fl"
    by (simp add: r update_loop_length)
  have nth: "results (run_updates sp st) ! i
      = record_result (fl ! i) (sp i [''flatpak'', ''update'', ''-y'', name (fl ! i)])"
    if "i < length fl" for i
    using that by (simp add: r update_loop_nth flatpak_argv_def)
  have names: "map r_name (results (run_updates sp st)) = map name fl"
    by (rule nth_equalityI) (simp_all add: len nth record_result_fields)
  have src: "r_source r = FLATPAK" if "r \<in> set (results (run_updates sp st))" for r
  proof -
    from that obtain i where i: "i < length fl" "results (run_updates sp st) ! i = r"
      by (auto simp: in_set_conv_nth len)
    have "fl ! i \<in> set fl" using i(1) by simp
    then have "source (fl ! i) = FLATPAK" by (simp add: assms(2))
    with nth[OF i(1)] i(2) show ?thesis by (auto simp: record_result_fields)
  qed
  have each: "success (results (run_updates sp st) ! i)
             = (returncode (sp i [''flatpak'', ''update'', ''-y'', name (fl ! i)]) = 0)
           \<and> error (results (run_updates sp st) ! i)
             = (if returncode (sp i [''flatpak'', ''update'', ''-y'', name (fl ! i)]) = 0 then []
                else last_error (stderr (sp i [''flatpak'', ''update'', ''-y'', name (fl ! i)])))"
    if "i < length fl" for i
    using nth[OF that] by (simp add: record_result_def)
  from p len names src each show ?thesis by blast
qed

theorem no_helper_skips_pacman_batch_witness:
  "aur_helper mixed_selection = None
   \<and> filter (\<lambda>p. source p = FLATPAK) (filter selected (packages mixed_selection)) = [pkgF, pkgH]
   \<and> results (run_updates (fail_at 1 (''error: network unreachable'' @ [nl])) mixed_selection)
       = [\<lparr>r_name = ''org.app.F'', r_source = FLATPAK, success = True, error = []\<rparr>,
          \<lparr>r_name = ''org.app.H'', r_source = FLATPAK, success = False,
           error = ''error: network unreachable''\<rparr>]"
proof -
  let ?sp = "fail_at 1 (''error: network unreachable'' @ [nl])"
  have h: "aur_helper mixed_selection = None"
    by (simp add: mixed_selection_def UpdaterTUI_init_def)
  have f: "[pkgF, pkgH]
      = filter (\<lambda>p. source p = FLATPAK) (filter selected (packages mixed_selection))"
    by (simp add: mixed_selection_def UpdaterTUI_init_def pkgA_def pkgB_def pkgF_def pkgG_def
          pkgH_def)
  have r: "results (run_updates ?sp mixed_selection)
       = [\<lparr>r_name = ''org.app.F'', r_source = FLATPAK, success = True, error = []\<rparr>,
          \<lparr>r_name = ''org.app.H'', r_source = FLATPAK, success = False,
           error = ''error: network unreachable''\<rparr>]"
    by (simp add: mixed_selection_def UpdaterTUI_init_def exec_defs fail_at_def
          pkgA_def pkgB_def pkgF_def pkgG_def pkgH_def last_error_def error_lines_def
          split_on_def nl_def strip_def is_space_def)
  from no_helper_skips_pacman_batch[OF h f, of ?sp] h f[symmetric] r show ?thesis
    by simp
qed

subsection \<open>Failure capture\<close>

lemma split_acc_append:
  "split_acc sep cur (a @ sep # b) = split_acc sep cur a @ split_acc sep [] b"
  by (induction a arbitrary: cur) simp_all

lemma split_acc_no_sep:
  "sep \<notin> set l \<Longrightarrow> split_acc sep cur l = [cur @ l]"
  by (induction l arbitrary: cur) auto

lemma split_acc_chars:
  "p \<in> set (split_acc sep cur s) \<Longrightarrow> set p \<subseteq> set cur \<union> set s"
proof (induction s arbitrary: cur)
  case Nil
  then show ?case by simp
next
  case (Cons c s)
  then show ?case by (fastforce split: if_splits)
qed

lemma strip_blank: "(\<forall>c \<in> set s. is_space c) \<Longrightarrow> strip s = []"
proof -
  assume a: "\<forall>c \<in> set s. is_space c"
  then have d: "dropWhile is_space s = []" by simp
  show ?thesis unfolding strip_def d by simp
qed

lemma split_on_blank:
  assumes "\<forall>c \<in> set s. is_space c"
  shows "filter (\<lambda>l. strip l \<noteq> []) (split_on sep s) = []"
proof -
  have "strip p = []" if "p \<in> set (split_on sep s)" for p
  proof -
    from that split_acc_chars[of p sep "[]" s] have "set p \<subseteq> set s" by (simp add: split_on_def)
    with assms show ?thesis by (auto intro: strip_blank)
  qed
  then show ?thesis by (simp add: filter_empty_conv)
qed

lemma split_on_last_line:
  assumes "a = [] \<or> last a = sep" "sep \<notin> set l" "b = [] \<or> hd b = sep"
  shows "\<exists>pre post. split_on sep (a @ l @ b) = pre @ [l] @ post
            \<and> (\<forall>p \<in> set post. set p \<subseteq> set b)"
proof -
  have tail: "\<exists>post. split_acc sep [] (l @ b) = [l] @ post \<and> (\<forall>p \<in> set post. set p \<subseteq> set b)"
  proof (cases b)
    case Nil
    with assms(2) show ?thesis by (simp add: split_acc_no_sep)
  next
    case (Cons c b')
    with assms(3) have c: "c = sep" by simp
    have "split_acc sep [] (l @ sep # b') = [l] @ split_acc sep [] b'"
      using assms(2) by (simp add: split_acc_append split_acc_no_sep)
    moreover have "\<forall>p \<in> set (split_acc sep [] b'). set p \<subseteq> set b"
      using split_acc_chars[of _ sep "[]" b'] Cons by auto
    ultimately show ?thesis using Cons c by auto
  qed
  show ?thesis
  proof (cases "a = []")
    case True
    with tail show ?thesis by (auto simp: split_on_def intro: exI[of _ "[]"])
  next
    case False
    with assms(1) obtain a' where a: "a = a' @ [sep]"
      by (metis append_butlast_last_id)
    have "split_on sep (a @ l @ b) = split_acc sep [] a' @ split_acc sep [] (l @ b)"
      by (simp add: split_on_def a split_acc_append)
    with tail show ?thesis by auto
  qed
qed

lemma last_error_last_line:
  assumes "a = [] \<or> last a = nl" "nl \<notin> set l" "b = [] \<or> hd b = nl"
    "\<forall>c \<in> set b. is_space c" "strip l \<noteq> []"
  shows "last_error (Some (a @ l @ b)) = strip l"
proof -
  from split_on_last_line[OF assms(1,2,3)] obtain pre post where
    s: "split_on nl (a @ l @ b) = pre @ [l] @ post" "\<forall>p \<in> set post. set p \<subseteq> set b" by blast
  have "strip p = []" if "p \<in> set post" for p
    using that s(2) assms(4) by (auto intro: strip_blank)
  then have "filter (\<lambda>l. strip l \<noteq> []) post = []" by (simp add: filter_empty_conv)
  with s(1) assms(5) have "error_lines (Some (a @ l @ b))
      = map strip (filter (\<lambda>l. strip l \<noteq> []) pre) @ [strip l]"
    by (simp add: error_lines_def)
  then show ?thesis by (simp add: last_error_def)
qed

lemma last_error_blank:
  assumes "\<forall>c \<in> set (case err of None \<Rightarrow> [] | Some s \<Rightarrow> s). is_space c"
  shows "last_error err = ''Unknown error''"
  using split_on_blank[OF assms, of nl] by (simp add: last_error_def error_lines_def)

text \<open>
  Claim C5 fails as stated: the recorded error is not the last non-blank line itself but
  that line without its leading and trailing whitespace. For the one-line error text
  \<open>"  boom"\<close> the recorded error is \<open>"boom"\<close>.
\<close>

theorem strip_counterexample:
  "execute (fail_at 0 ''  boom'') None [pkgF]
     = [\<lparr>r_name = ''org.app.F'', r_source = FLATPAK, success = False, error = ''boom''\<rparr>]
   \<and> split_on nl ''  boom'' = [''  boom'']
   \<and> ''boom'' \<noteq> ''  boom''"
  by (simp add: execute_def pacman_results_def truthy_def flatpak_pkgs_def selected_pkgs_def
        pkgF_def fail_at_def record_result_def flatpak_argv_def last_error_def error_lines_def
        split_on_def nl_def strip_def is_space_def)

text \<open>
  Claim C5 as amended. For the \<open>i\<close>-th package of a batch, with \<open>result\<close> the
  completed process of its command and \<open>text\<close> the captured standard error: a zero
  exit status gives \<open>success = True\<close> and an empty error; a non-zero status gives
  \<open>success = False\<close> with, as error, the last non-blank line \<open>l\<close> of the text
  stripped of leading and trailing whitespace (\<open>l\<close> is a whole line, and everything
  after it is whitespace), or \<open>"Unknown error"\<close> when the text is all whitespace.
\<close>

theorem failure_capture:
  assumes "i < length pkgs" and "result = sp (k + i) (argv (pkgs ! i))"
    and "text = (case stderr result of None \<Rightarrow> [] | Some s \<Rightarrow> s)"
  shows "(returncode result = 0 \<longrightarrow>
            update_loop sp argv k pkgs ! i
              = \<lparr>r_name = name (pkgs ! i), r_source = source (pkgs ! i), success = True,
                 error = []\<rparr>)
     \<and> (returncode result \<noteq> 0 \<and> text = a @ l @ b \<and> (a = [] \<or> last a = nl) \<and> nl \<notin> set l
          \<and> (b = [] \<or> hd b = nl) \<and> (\<forall>c \<in> set b. is_space c) \<and> strip l \<noteq> [] \<longrightarrow>
            update_loop sp argv k pkgs ! i
              = \<lparr>r_name = name (pkgs ! i), r_source = source (pkgs ! i), success = False,
                 error = strip l\<rparr>)
     \<and> (returncode result \<noteq> 0 \<and> (\<forall>c \<in> set text. is_space c) \<longrightarrow>
            update_loop sp argv k pkgs ! i
              = \<lparr>r_name = name (pkgs ! i), r_source = source (pkgs ! i), success = False,
                 error = ''Unknown error''\<rparr>)"
proof -
  have r: "update_loop sp argv k pkgs ! i = record_result (pkgs ! i) result"
    using assms(1,2) by (simp add: update_loop_nth)
  have e: "last_error (stderr result) = last_error (Some text)"
    using assms(3) by (cases "stderr result") (simp_all add: last_error_def error_lines_def)
  have one: "last_error (stderr result) = strip l"
    if "text = a @ l @ b" "a = [] \<or> last a = nl" "nl \<notin> set l" "b = [] \<or> hd b = nl"
      "\<forall>c \<in> set b. is_space c" "strip l \<noteq> []"
    using last_error_last_line[OF that(2-6)] that(1) e by simp
  have two: "last_error (stderr result) = ''Unknown error''" if "\<forall>c \<in> set text. is_space c"
    using last_error_blank[of "stderr result"] that assms(3) by simp
  show ?thesis using r one two by (simp add: record_result_def)
qed

text \<open>
  The scenario of the specification: one flatpak item whose command fails with the error
  text \<open>"error: network unreachable"\<close> followed by a newline. The last example has
  the whitespace character U+0085 after the message; it is stripped as well.
\<close>

theorem failure_capture_witness:
  "update_loop (fail_at 0 (''error: network unreachable'' @ [nl])) flatpak_argv 0 [pkgF] ! 0
     = \<lparr>r_name = ''org.app.F'', r_source = FLATPAK, success = False,
        error = ''error: network unreachable''\<rparr>
   \<and> update_loop (fail_at 0 [nl, nl]) flatpak_argv 0 [pkgF] ! 0
     = \<lparr>r_name = ''org.app.F'', r_source = FLATPAK, success = False, error = ''Unknown error''\<rparr>
   \<and> update_loop all_succeed flatpak_argv 0 [pkgF] ! 0
     = \<lparr>r_name = ''org.app.F'', r_source = FLATPAK, success = True, error = []\<rparr>
   \<and> update_loop (fail_at 0 (''boom'' @ [CHR 0x85, nl])) flatpak_argv 0 [pkgF] ! 0
     = \<lparr>r_name = ''org.app.F'', r_source = FLATPAK, success = False, error = ''boom''\<rparr>"
proof -
  let ?msg = "''error: network unreachable''"
  have i: "0 < length [pkgF]" by simp
  have s: "strip ?msg = ?msg" "strip ?msg \<noteq> []" "nl \<notin> set ?msg" "\<forall>c \<in> set [nl]. is_space c"
    "\<forall>c \<in> set [nl, nl]. is_space c"
    by (simp_all add: strip_def is_space_def nl_def)
  have f: "name pkgF = ''org.app.F''" "source pkgF = FLATPAK" by (simp_all add: pkgF_def)
  have one: "update_loop (fail_at 0 (?msg @ [nl])) flatpak_argv 0 [pkgF] ! 0
     = \<lparr>r_name = ''org.app.F'', r_source = FLATPAK, success = False, error = ?msg\<rparr>"
    using failure_capture[OF i refl refl, of "fail_at 0 (?msg @ [nl])" 0 flatpak_argv "[]" ?msg "[nl]"]
      s f by (simp add: fail_at_def)
  have two: "update_loop (fail_at 0 [nl, nl]) flatpak_argv 0 [pkgF] ! 0
     = \<lparr>r_name = ''org.app.F'', r_source = FLATPAK, success = False, error = ''Unknown error''\<rparr>"
    using failure_capture[OF i refl refl, of "fail_at 0 [nl, nl]" 0 flatpak_argv "[]" "[]" "[]"]
      s f by (simp add: fail_at_def)
  have three: "update_loop all_succeed flatpak_argv 0 [pkgF] ! 0
     = \<lparr>r_name = ''org.app.F'', r_source = FLATPAK, success = True, error = []\<rparr>"
    using failure_capture[OF i refl refl, of all_succeed 0 flatpak_argv "[]" "[]" "[]"]
      f by (simp add: all_succeed_def)
  have t: "strip (''boom'' @ [CHR 0x85]) = ''boom''" "nl \<notin> set (''boom'' @ [CHR 0x85])"
    by (simp_all add: strip_def is_space_def nl_def)
  have four: "update_loop (fail_at 0 (''boom'' @ [CHR 0x85, nl])) flatpak_argv 0 [pkgF] ! 0
     = \<lparr>r_name = ''org.app.F'', r_source = FLATPAK, success = False, error = ''boom''\<rparr>"
    using failure_capture[OF i refl refl, of "fail_at 0 (''boom'' @ [CHR 0x85, nl])" 0 flatpak_argv
        "[]" "''boom'' @ [CHR 0x85]" "[nl]"] s t f
    by (simp add: fail_at_def)
  from one two three four show ?thesis by simp
qed

subsection \<open>Source adapters: one line of output\<close>

lemma split_acc_not_Nil: "split_acc sep cur s \<noteq> []"
  by (induction s arbitrary: cur) simp_all

text \<open>
  Claim C2 fails as stated in two places. A flatpak line with two tab-separated fields
  whose first field is empty has the minimum field count, yet yields no item. An AUR line
  that holds a name only is below the minimum and has a name, yet yields no item.
\<close>

theorem line_fields_counterexample:
  "split_on tab (tab # ''1.0'') = ['''', ''1.0''] \<and> flatpak_line (tab # ''1.0'') = []
   \<and> split_ws ''foo'' = [''foo''] \<and> aur_line ''foo'' = []"
  by (simp add: flatpak_line_def aur_line_def split_on_def split_ws_def tab_def strip_def
        is_space_def)

text \<open>
  Claim C2 as amended, for one line of output, with its fields as \<open>split()\<close> gives them
  (official, AUR) or as splitting at tab characters gives them (flatpak). Official: four or more fields
  yield the item made of fields 0, 1 and 3, fewer yield nothing. AUR: four or more fields
  yield the full item, two or three fields yield an item with new version \<open>"?"\<close>, no
  field yields nothing. Flatpak, where the name is the stripped first field: a non-empty name
  with a second field yields the full item, a non-empty name alone yields an item with new
  version \<open>"?"\<close>, an empty name yields nothing. An AUR line with exactly one field is
  not covered. Every line of the stripped output of a listing command that exits with status
  0 is handed to these rules: the result of each adapter is what its lines yield, in the order
  of the lines.
\<close>

theorem line_fields:
  "(4 \<le> length (split_ws line) \<longrightarrow>
      official_line line
        = [\<lparr>name = split_ws line ! 0, current_version = split_ws line ! 1,
            new_version = split_ws line ! 3, source = OFFICIAL, selected = True\<rparr>]
      \<and> aur_line line
        = [\<lparr>name = split_ws line ! 0, current_version = split_ws line ! 1,
            new_version = split_ws line ! 3, source = AUR, selected = True\<rparr>])
   \<and> (length (split_ws line) < 4 \<longrightarrow> official_line line = [])
   \<and> (length (split_ws line) = 2 \<or> length (split_ws line) = 3 \<longrightarrow>
      aur_line line
        = [\<lparr>name = split_ws line ! 0, current_version = split_ws line ! 1,
            new_version = ''?'', source = AUR, selected = True\<rparr>])
   \<and> (split_ws line = [] \<longrightarrow> aur_line line = [])
   \<and> (2 \<le> length (split_on tab line) \<and> strip (split_on tab line ! 0) \<noteq> [] \<longrightarrow>
      flatpak_line line
        = [\<lparr>name = strip (split_on tab line ! 0), current_version = ''installed'',
            new_version = strip (split_on tab line ! 1), source = FLATPAK, selected = True\<rparr>])
   \<and> (length (split_on tab line) = 1 \<and> strip (split_on tab line ! 0) \<noteq> [] \<longrightarrow>
      flatpak_line line
        = [\<lparr>name = strip (split_on tab line ! 0), current_version = ''installed'',
            new_version = ''?'', source = FLATPAK, selected = True\<rparr>])
   \<and> (strip (split_on tab line ! 0) = [] \<longrightarrow> flatpak_line line = [])
   \<and> (returncode result = 0 \<and> strip (stdout result) \<noteq> [] \<longrightarrow>
      get_official_updates (Completed result)
        = concat (map official_line (split_on nl (strip (stdout result))))
      \<and> get_aur_updates (Completed result)
        = concat (map aur_line (split_on nl (strip (stdout result))))
      \<and> get_flatpak_updates True (Completed result)
        = concat (map flatpak_line (split_on nl (strip (stdout result)))))"
proof -
  have ne: "split_on tab line \<noteq> []" by (simp add: split_on_def split_acc_not_Nil)
  show ?thesis
    using ne
    by (auto simp: official_line_def aur_line_def flatpak_line_def Package_init_def Let_def
          get_official_updates_def get_aur_updates_def get_flatpak_updates_def)
qed

theorem line_fields_witness:
  "official_line ''pkgA 1.0 -> 1.1''
     = [\<lparr>name = ''pkgA'', current_version = ''1.0'', new_version = ''1.1'', source = OFFICIAL,
         selected = True\<rparr>]
   \<and> official_line ''pkgA 1.0'' = []
   \<and> aur_line ''pkgB 2.0 -> 2.1''
     = [\<lparr>name = ''pkgB'', current_version = ''2.0'', new_version = ''2.1'', source = AUR,
         selected = True\<rparr>]
   \<and> aur_line ''pkgB 2.0''
     = [\<lparr>name = ''pkgB'', current_version = ''2.0'', new_version = ''?'', source = AUR,
         selected = True\<rparr>]
   \<and> aur_line '' '' = []
   \<and> flatpak_line (''org.app.F'' @ [tab] @ ''3.1'')
     = [\<lparr>name = ''org.app.F'', current_version = ''installed'', new_version = ''3.1'',
         source = FLATPAK, selected = True\<rparr>]
   \<and> flatpak_line ''org.app.F''
     = [\<lparr>name = ''org.app.F'', current_version = ''installed'', new_version = ''?'',
         source = FLATPAK, selected = True\<rparr>]
   \<and> flatpak_line ('' '' @ [tab] @ ''3.1'') = []
   \<and> official_line (''pkgA'' @ [CHR 0xA0] @ ''1.0 -> 1.1'')
     = [\<lparr>name = ''pkgA'', current_version = ''1.0'', new_version = ''1.1'', source = OFFICIAL,
         selected = True\<rparr>]
   \<and> get_official_updates
         (completed_ok (''pkgA 1.0 -> 1.1'' @ [nl] @ ''broken line'' @ [nl] @ ''pkgC 3 -> 4'' @ [nl]))
     = [\<lparr>name = ''pkgA'', current_version = ''1.0'', new_version = ''1.1'', source = OFFICIAL,
         selected = True\<rparr>,
        \<lparr>name = ''pkgC'', current_version = ''3'', new_version = ''4'', source = OFFICIAL,
         selected = True\<rparr>]"
proof -
  have a: "official_line ''pkgA 1.0 -> 1.1''
     = [\<lparr>name = ''pkgA'', current_version = ''1.0'', new_version = ''1.1'', source = OFFICIAL,
         selected = True\<rparr>]"
    using line_fields[where line = "''pkgA 1.0 -> 1.1''"] by (simp add: split_ws_def is_space_def)
  have b: "official_line ''pkgA 1.0'' = []"
    using line_fields[where line = "''pkgA 1.0''"] by (simp add: split_ws_def is_space_def)
  have c: "aur_line ''pkgB 2.0 -> 2.1''
     = [\<lparr>name = ''pkgB'', current_version = ''2.0'', new_version = ''2.1'', source = AUR,
         selected = True\<rparr>]"
    using line_fields[where line = "''pkgB 2.0 -> 2.1''"] by (simp add: split_ws_def is_space_def)
  have d: "aur_line ''pkgB 2.0''
     = [\<lparr>name = ''pkgB'', current_version = ''2.0'', new_version = ''?'', source = AUR,
         selected = True\<rparr>]"
    using line_fields[where line = "''pkgB 2.0''"] by (simp add: split_ws_def is_space_def)
  have e: "aur_line '' '' = []"
    using line_fields[where line = "'' ''"] by (simp add: split_ws_def is_space_def)
  have f: "flatpak_line (''org.app.F'' @ [tab] @ ''3.1'')
     = [\<lparr>name = ''org.app.F'', current_version = ''installed'', new_version = ''3.1'',
         source = FLATPAK, selected = True\<rparr>]"
    using line_fields[where line = "''org.app.F'' @ [tab] @ ''3.1''"]
    by (simp add: split_on_def tab_def strip_def is_space_def)
  have g: "flatpak_line ''org.app.F''
     = [\<lparr>name = ''org.app.F'', current_version = ''installed'', new_version = ''?'',
         source = FLATPAK, selected = True\<rparr>]"
    using line_fields[where line = "''org.app.F''"]
    by (simp add: split_on_def tab_def strip_def is_space_def)
  have h: "flatpak_line ('' '' @ [tab] @ ''3.1'') = []"
    using line_fields[where line = "'' '' @ [tab] @ ''3.1''"]
    by (simp add: split_on_def tab_def strip_def is_space_def)
  have i: "official_line (''pkgA'' @ [CHR 0xA0] @ ''1.0 -> 1.1'')
     = [\<lparr>name = ''pkgA'', current_version = ''1.0'', new_version = ''1.1'', source = OFFICIAL,
         selected = True\<rparr>]"
    using line_fields[where line = "''pkgA'' @ [CHR 0xA0] @ ''1.0 -> 1.1''"]
    by (simp add: split_ws_def is_space_def)
  have l: "official_line ''pkgA 1.0 -> 1.1''
     = [\<lparr>name = ''pkgA'', current_version = ''1.0'', new_version = ''1.1'', source = OFFICIAL,
         selected = True\<rparr>]"
    "official_line ''broken line'' = []"
    "official_line ''pkgC 3 -> 4''
     = [\<lparr>name = ''pkgC'', current_version = ''3'', new_version = ''4'', source = OFFICIAL,
         selected = True\<rparr>]"
    by (simp_all add: official_line_def split_ws_def is_space_def Package_init_def)
  have j: "get_official_updates
         (completed_ok (''pkgA 1.0 -> 1.1'' @ [nl] @ ''broken line'' @ [nl] @ ''pkgC 3 -> 4'' @ [nl]))
     = [\<lparr>name = ''pkgA'', current_version = ''1.0'', new_version = ''1.1'', source = OFFICIAL,
         selected = True\<rparr>,
        \<lparr>name = ''pkgC'', current_version = ''3'', new_version = ''4'', source = OFFICIAL,
         selected = True\<rparr>]"
    using line_fields[where result = "\<lparr>returncode = 0,
        stdout = ''pkgA 1.0 -> 1.1'' @ [nl] @ ''broken line'' @ [nl] @ ''pkgC 3 -> 4'' @ [nl],
        stderr = None\<rparr>"] l
    by (simp add: completed_ok_def strip_def is_space_def nl_def split_on_def)
  from a b c d e f g h i j show ?thesis by simp
qed

subsection \<open>Aggregation of the catalog\<close>

lemma official_line_items: "p \<in> set (official_line l) \<Longrightarrow> source p = OFFICIAL \<and> selected p"
  by (auto simp: official_line_def Package_init_def Let_def split: if_splits)

lemma aur_line_items: "p \<in> set (aur_line l) \<Longrightarrow> source p = AUR \<and> selected p"
  by (auto simp: aur_line_def Package_init_def Let_def split: if_splits)

lemma flatpak_line_items: "p \<in> set (flatpak_line l) \<Longrightarrow> source p = FLATPAK \<and> selected p"
  by (auto simp: flatpak_line_def Package_init_def Let_def split: if_splits)

lemma get_official_updates_items:
  "p \<in> set (get_official_updates out) \<Longrightarrow> source p = OFFICIAL \<and> selected p"
  by (auto simp: get_official_updates_def split: run_outcome.splits if_splits
           dest: official_line_items)

lemma get_aur_updates_items:
  "p \<in> set (get_aur_updates out) \<Longrightarrow> source p = AUR \<and> selected p"
  by (auto simp: get_aur_updates_def split: run_outcome.splits if_splits
           dest: aur_line_items)

lemma get_flatpak_updates_items:
  "p \<in> set (get_flatpak_updates w out) \<Longrightarrow> source p = FLATPAK \<and> selected p"
  by (auto simp: get_flatpak_updates_def split: run_outcome.splits if_splits
           dest: flatpak_line_items)

lemma map_const_source:
  "(\<And>p. p \<in> set ps \<Longrightarrow> source p = s) \<Longrightarrow> map source ps = replicate (length ps) s"
  by (induction ps) simp_all

text \<open>
  Claim C8. Whatever the three listing commands return, the catalog is the official items,
  then the AUR items (none without a helper), then the flatpak items; the sources along the
  catalog are a run of \<open>OFFICIAL\<close>, a run of \<open>AUR\<close> and a run of
  \<open>FLATPAK\<close>; and every item of the catalog is selected.
\<close>

theorem gather_packages_order:
  "gather_packages helper off_out aur_out which_flatpak flat_out
     = get_official_updates off_out
       @ (if truthy helper then get_aur_updates aur_out else [])
       @ get_flatpak_updates which_flatpak flat_out
   \<and> (\<exists>n m k. map source (gather_packages helper off_out aur_out which_flatpak flat_out)
         = replicate n OFFICIAL @ replicate m AUR @ replicate k FLATPAK)
   \<and> (\<forall>p \<in> set (get_official_updates off_out). source p = OFFICIAL)
   \<and> (\<forall>p \<in> set (get_aur_updates aur_out). source p = AUR)
   \<and> (\<forall>p \<in> set (get_flatpak_updates which_flatpak flat_out). source p = FLATPAK)
   \<and> (\<forall>p \<in> set (gather_packages helper off_out aur_out which_flatpak flat_out). selected p)"
proof -
  let ?o = "get_official_updates off_out"
  let ?a = "if truthy helper then get_aur_updates aur_out else []"
  let ?f = "get_flatpak_updates which_flatpak flat_out"
  have "map source ?o = replicate (length ?o) OFFICIAL"
    by (rule map_const_source) (simp add: get_official_updates_items)
  moreover have "map source ?a = replicate (length ?a) AUR"
    by (rule map_const_source) (auto dest: get_aur_updates_items split: if_splits)
  moreover have "map source ?f = replicate (length ?f) FLATPAK"
    by (rule map_const_source) (simp add: get_flatpak_updates_items)
  ultimately have "map source (gather_packages helper off_out aur_out which_flatpak flat_out)
      = replicate (length ?o) OFFICIAL @ replicate (length ?a) AUR @ replicate (length ?f) FLATPAK"
    by (simp add: gather_packages_def)
  then have ex: "\<exists>n m k. map source (gather_packages helper off_out aur_out which_flatpak flat_out)
         = replicate n OFFICIAL @ replicate m AUR @ replicate k FLATPAK" by blast
  have sel: "\<forall>p \<in> set (gather_packages helper off_out aur_out which_flatpak flat_out). selected p"
    by (auto simp: gather_packages_def dest: get_official_updates_items get_aur_updates_items
          get_flatpak_updates_items split: if_splits)
  show ?thesis
    using ex sel
    by (simp add: gather_packages_def get_official_updates_items get_aur_updates_items
          get_flatpak_updates_items)
qed

theorem gather_packages_order_witness:
  "gather_packages (Some ''paru'') (completed_ok (''pkgA 1.0 -> 1.1'' @ [nl]))
       (completed_ok (''pkgB 2.0 -> 2.1'' @ [nl])) True
       (completed_ok (''org.app.F'' @ [tab] @ ''3.1'' @ [nl]))
     = [pkgA, pkgB\<lparr>selected := True\<rparr>, pkgF]
   \<and> map source [pkgA, pkgB\<lparr>selected := True\<rparr>, pkgF] = [OFFICIAL, AUR, FLATPAK]
   \<and> map selected [pkgA, pkgB\<lparr>selected := True\<rparr>, pkgF] = [True, True, True]"
proof -
  have g: "gather_packages (Some ''paru'') (completed_ok (''pkgA 1.0 -> 1.1'' @ [nl]))
       (completed_ok (''pkgB 2.0 -> 2.1'' @ [nl])) True
       (completed_ok (''org.app.F'' @ [tab] @ ''3.1'' @ [nl]))
     = [pkgA, pkgB\<lparr>selected := True\<rparr>, pkgF]"
    by (simp add: gather_packages_def completed_ok_def get_official_updates_def
          get_aur_updates_def get_flatpak_updates_def truthy_def strip_def is_space_def nl_def
          tab_def split_on_def split_ws_def official_line_def aur_line_def flatpak_line_def
          Package_init_def pkgA_def pkgB_def pkgF_def)
  from gather_packages_order[of "Some ''paru''" "completed_ok (''pkgA 1.0 -> 1.1'' @ [nl])"
      "completed_ok (''pkgB 2.0 -> 2.1'' @ [nl])" True
      "completed_ok (''org.app.F'' @ [tab] @ ''3.1'' @ [nl])"] g
  show ?thesis by (simp add: pkgA_def pkgB_def pkgF_def)
qed

end
